theory Spec2Isabelle
  imports Main "HOL-Library.Monad_Syntax"
begin

section \<open>Nine Men's Morris: the rules engine of \<open>nine_mens_morris.py\<close>\<close>

text \<open>
  The engine is embedded as pure functions over an explicit game state. A Python
  exception (the only one the engine can raise is \<open>IndexError\<close>, from indexing the
  board or the adjacency table) is the value \<open>None\<close>; a normal return is \<open>Some\<close>.
  The \<open>print\<close> calls of the source write to the terminal only and are left out.
\<close>

subsection \<open>Python list indexing\<close>

text \<open>
  \<open>xs[i]\<close> in Python: an index in \<open>[0, len)\<close> is used as it is, an index in
  \<open>[-len, 0)\<close> counts from the end, anything else raises \<open>IndexError\<close>.
\<close>

definition py_index :: "nat \<Rightarrow> int \<Rightarrow> nat option" where
  "py_index n i =
     (if 0 \<le> i \<and> i < int n then Some (nat i)
      else if - int n \<le> i \<and> i < 0 then Some (nat (int n + i))
      else None)"

definition py_getitem :: "'a list \<Rightarrow> int \<Rightarrow> 'a option" where
  "py_getitem xs i = do { k \<leftarrow> py_index (length xs) i; Some (xs ! k) }"

definition py_setitem :: "'a list \<Rightarrow> int \<Rightarrow> 'a \<Rightarrow> 'a list option" where
  "py_setitem xs i v = do { k \<leftarrow> py_index (length xs) i; Some (xs[k := v]) }"

subsection \<open>Player\<close>

record Player =
  name :: string
  player_symbol :: string
  pieces_in_hand :: int
  pieces_on_board :: int
  player_type :: string

definition place_piece :: "Player \<Rightarrow> bool \<times> Player" where
  "place_piece p =
     (if pieces_in_hand p > 0
      then (True, p\<lparr>pieces_in_hand := pieces_in_hand p - 1,
                     pieces_on_board := pieces_on_board p + 1\<rparr>)
      else (False, p))"

definition remove_piece :: "Player \<Rightarrow> bool \<times> Player" where
  "remove_piece p =
     (if pieces_on_board p > 0
      then (True, p\<lparr>pieces_on_board := pieces_on_board p - 1\<rparr>)
      else (False, p))"

subsection \<open>BoardManager\<close>

type_synonym board = "string list"

definition make_new_board :: board where
  "make_new_board = replicate 24 ''.''"

definition is_position_empty :: "board \<Rightarrow> int \<Rightarrow> bool option" where
  "is_position_empty b position = do { c \<leftarrow> py_getitem b position; Some (c = ''.'') }"

definition who_on_position :: "board \<Rightarrow> int \<Rightarrow> string option" where
  "who_on_position b position = py_getitem b position"

text \<open>
  The two scans below run \<open>i\<close> over \<open>range(len(self.board))\<close>, so the read of cell
  \<open>i\<close> is always in range and is written as \<open>b ! i\<close>.
\<close>

definition get_players_positions :: "board \<Rightarrow> string \<Rightarrow> int list" where
  "get_players_positions b symbol = map int (filter (\<lambda>i. b ! i = symbol) [0..<length b])"

definition get_empty_positions :: "board \<Rightarrow> int list" where
  "get_empty_positions b = map int (filter (\<lambda>i. b ! i = ''.'') [0..<length b])"

definition adjacent_arrays :: "int list list" where
  "adjacent_arrays =
     [[1, 9], [0, 2, 4], [1, 14],
      [10, 4], [1, 3, 7, 5], [4, 13],
      [7, 11], [4, 6, 8], [7, 12],
      [0, 10, 21], [3, 9, 18, 11], [6, 10, 15],
      [8, 13, 17], [5, 12, 20, 14], [2, 13, 23],
      [11, 16], [15, 17, 19], [12, 16],
      [10, 19], [16, 18, 22, 20], [13, 19],
      [9, 22], [19, 21, 23], [14, 22]]"

text \<open>The loop \<open>for adj in ...: if self.is_position_empty(adj): append\<close>.\<close>

fun empty_among :: "board \<Rightarrow> int list \<Rightarrow> int list option" where
  "empty_among b [] = Some []"
| "empty_among b (adj # adjs) =
     do { e \<leftarrow> is_position_empty b adj;
          rest \<leftarrow> empty_among b adjs;
          Some (if e then adj # rest else rest) }"

definition get_empty_adjacent_positions :: "board \<Rightarrow> int \<Rightarrow> int list option" where
  "get_empty_adjacent_positions b position =
     do { adjs \<leftarrow> py_getitem adjacent_arrays position; empty_among b adjs }"

text \<open>
  The mutating operations return the success flag together with the board after the
  call; on a \<open>False\<close> return the source has written nothing.
\<close>

definition add_player_piece :: "board \<Rightarrow> int \<Rightarrow> string \<Rightarrow> (bool \<times> board) option" where
  "add_player_piece b position symbol =
     do { e \<leftarrow> is_position_empty b position;
          if e then do { b' \<leftarrow> py_setitem b position symbol; Some (True, b') }
          else Some (False, b) }"

definition remove_player_piece :: "board \<Rightarrow> int \<Rightarrow> (bool \<times> board) option" where
  "remove_player_piece b position =
     do { e \<leftarrow> is_position_empty b position;
          if \<not> e then do { b' \<leftarrow> py_setitem b position ''.''; Some (True, b') }
          else Some (False, b) }"

text \<open>
  The guard of \<open>move_player_piece\<close> is a Python \<open>and\<close> chain: a conjunct is evaluated
  only when the ones before it are true.
\<close>

definition move_player_piece :: "board \<Rightarrow> int \<Rightarrow> int \<Rightarrow> string \<Rightarrow> (bool \<times> board) option" where
  "move_player_piece b from_position to_position symbol =
     do { c \<leftarrow> py_getitem b from_position;
          if c \<noteq> symbol then Some (False, b)
          else do {
            e \<leftarrow> is_position_empty b to_position;
            if \<not> e then Some (False, b)
            else do {
              adjs \<leftarrow> py_getitem adjacent_arrays from_position;
              if to_position \<notin> set adjs then Some (False, b)
              else do {
                b1 \<leftarrow> py_setitem b from_position ''.'';
                b2 \<leftarrow> py_setitem b1 to_position symbol;
                Some (True, b2) } } } }"

definition fly_player_piece :: "board \<Rightarrow> int \<Rightarrow> int \<Rightarrow> string \<Rightarrow> (bool \<times> board) option" where
  "fly_player_piece b from_position to_position symbol =
     do { c \<leftarrow> py_getitem b from_position;
          if c \<noteq> symbol then Some (False, b)
          else do {
            e \<leftarrow> is_position_empty b to_position;
            if \<not> e then Some (False, b)
            else do {
              b1 \<leftarrow> py_setitem b from_position ''.'';
              b2 \<leftarrow> py_setitem b1 to_position symbol;
              Some (True, b2) } } }"

subsection \<open>Game\<close>

datatype GamePhase = PLACING | MOVING | FLYING | REMOVING_PIECE | GAME_OVER

text \<open>
  \<open>self.current_player\<close> is a reference to one of the two player objects of the game
  (it is set to \<open>self.player1\<close> at creation, toggled by \<open>switch_player\<close> and restored
  from a logged reference by \<open>undo_action\<close>); the model stores which of the two it is.
  The two players of a game are two distinct objects.
\<close>

datatype player_ref = P1 | P2

type_synonym snapshot = "board \<times> player_ref \<times> GamePhase \<times> int"

record Game =
  player1 :: Player
  player2 :: Player
  board :: board
  current_player :: player_ref
  current_phase :: GamePhase
  selected_piece :: "int option"
  game_history :: "snapshot list"
  legal_moves :: "int list"

definition new_game :: "Player \<Rightarrow> Player \<Rightarrow> Game" where
  "new_game player_1 player_2 =
     \<lparr>player1 = player_1\<lparr>pieces_in_hand := 9, pieces_on_board := 0\<rparr>,
      player2 = player_2\<lparr>pieces_in_hand := 9, pieces_on_board := 0\<rparr>,
      board = make_new_board,
      current_player = P1,
      current_phase = PLACING,
      selected_piece = None,
      game_history = [],
      legal_moves = []\<rparr>"

definition other_ref :: "player_ref \<Rightarrow> player_ref" where
  "other_ref r = (if r = P1 then P2 else P1)"

definition player_at :: "Game \<Rightarrow> player_ref \<Rightarrow> Player" where
  "player_at g r = (case r of P1 \<Rightarrow> player1 g | P2 \<Rightarrow> player2 g)"

definition set_player_at :: "Game \<Rightarrow> player_ref \<Rightarrow> Player \<Rightarrow> Game" where
  "set_player_at g r p = (case r of P1 \<Rightarrow> g\<lparr>player1 := p\<rparr> | P2 \<Rightarrow> g\<lparr>player2 := p\<rparr>)"

definition current :: "Game \<Rightarrow> Player" where
  "current g = player_at g (current_player g)"

definition opponent_player :: "Game \<Rightarrow> Player" where
  "opponent_player g = player_at g (other_ref (current_player g))"

definition switch_player :: "Game \<Rightarrow> Game" where
  "switch_player g = g\<lparr>current_player := other_ref (current_player g)\<rparr>"

definition get_allowed_moves :: "Game \<Rightarrow> int \<Rightarrow> int list option" where
  "get_allowed_moves g position_just_placed =
     (if current_phase g = PLACING then Some (get_empty_positions (board g))
      else if current_phase g = FLYING then Some (get_empty_positions (board g))
      else if current_phase g = MOVING
        then get_empty_adjacent_positions (board g) position_just_placed
      else Some [])"

definition mills_arrays :: "int list list" where
  "mills_arrays =
     [[0, 1, 2], [3, 4, 5], [6, 7, 8], [9, 10, 11],
      [12, 13, 14], [15, 16, 17], [18, 19, 20], [21, 22, 23],
      [0, 9, 21], [3, 10, 18], [6, 11, 15], [1, 4, 7],
      [16, 19, 22], [8, 12, 17], [5, 13, 20], [2, 14, 23]]"

text \<open>\<open>all(board[pos] == symbol for pos in mill)\<close>: stops at the first mismatch.\<close>

fun all_match :: "board \<Rightarrow> string \<Rightarrow> int list \<Rightarrow> bool option" where
  "all_match b symbol [] = Some True"
| "all_match b symbol (pos # rest) =
     do { c \<leftarrow> py_getitem b pos;
          if c = symbol then all_match b symbol rest else Some False }"

text \<open>The loop over \<open>mills_arrays\<close>: returns at the first completed mill holding \<open>location\<close>.\<close>

fun mill_scan :: "board \<Rightarrow> int \<Rightarrow> string \<Rightarrow> int list list \<Rightarrow> bool option" where
  "mill_scan b location symbol [] = Some False"
| "mill_scan b location symbol (mill # mills) =
     (if location \<in> set mill
      then do { a \<leftarrow> all_match b symbol mill;
                if a then Some True else mill_scan b location symbol mills }
      else mill_scan b location symbol mills)"

definition is_position_part_of_mill :: "board \<Rightarrow> int \<Rightarrow> bool option" where
  "is_position_part_of_mill b location =
     do { symbol_at_pos \<leftarrow> who_on_position b location;
          if symbol_at_pos = ''.'' then Some False
          else mill_scan b location symbol_at_pos mills_arrays }"

text \<open>The loop \<open>for pos in opponent_positions: if not part of mill: append\<close>.\<close>

fun non_mill_among :: "board \<Rightarrow> int list \<Rightarrow> int list option" where
  "non_mill_among b [] = Some []"
| "non_mill_among b (pos # rest) =
     do { m \<leftarrow> is_position_part_of_mill b pos;
          r \<leftarrow> non_mill_among b rest;
          Some (if \<not> m then pos # r else r) }"

definition get_allowed_removals :: "Game \<Rightarrow> int list option" where
  "get_allowed_removals g =
     (let opponent_positions =
            get_players_positions (board g) (player_symbol (opponent_player g))
      in do { non_mill_positions \<leftarrow> non_mill_among (board g) opponent_positions;
              Some (if non_mill_positions \<noteq> [] then non_mill_positions
                    else opponent_positions) })"

text \<open>
  The loop \<open>for pos in opponent_positions: if self.get_allowed_moves(pos): return False\<close>;
  the result says whether some position had a non-empty list.
\<close>

fun some_allowed_move :: "Game \<Rightarrow> int list \<Rightarrow> bool option" where
  "some_allowed_move g [] = Some False"
| "some_allowed_move g (pos # rest) =
     do { ms \<leftarrow> get_allowed_moves g pos;
          if ms \<noteq> [] then Some True else some_allowed_move g rest }"

definition check_win_condition :: "Game \<Rightarrow> bool option" where
  "check_win_condition g =
     (if pieces_in_hand (current g) = 0 \<and> pieces_in_hand (opponent_player g) = 0
         \<and> pieces_on_board (opponent_player g) < 3
      then Some True
      else
        (let opponent_positions =
               get_players_positions (board g) (player_symbol (opponent_player g))
         in if opponent_positions = [] then Some False
            else do {
              movable \<leftarrow> some_allowed_move g opponent_positions;
              if movable then Some False
              else if pieces_in_hand (current g) \<ge> 0
                      \<or> pieces_in_hand (opponent_player g) \<ge> 0
                then Some False
              else Some True }))"

definition update_game_phase :: "Game \<Rightarrow> Game option" where
  "update_game_phase g =
     do { won \<leftarrow> check_win_condition g;
          Some (if won then g\<lparr>current_phase := GAME_OVER\<rparr>
                else if pieces_in_hand (current g) > 0 then g\<lparr>current_phase := PLACING\<rparr>
                else if pieces_on_board (current g) = 3 then g\<lparr>current_phase := FLYING\<rparr>
                else g\<lparr>current_phase := MOVING\<rparr>) }"

definition finalize_turn :: "Game \<Rightarrow> int \<Rightarrow> Game option" where
  "finalize_turn g position =
     do { won \<leftarrow> check_win_condition g;
          if won then Some (g\<lparr>current_phase := GAME_OVER\<rparr>)
          else do {
            m \<leftarrow> is_position_part_of_mill (board g) position;
            if m then Some (g\<lparr>current_phase := REMOVING_PIECE\<rparr>)
            else update_game_phase (switch_player g) } }"

definition handle_placing :: "Game \<Rightarrow> int \<Rightarrow> (bool \<times> Game) option" where
  "handle_placing g position =
     do { (ok, b') \<leftarrow> add_player_piece (board g) position (player_symbol (current g));
          if ok then do {
            let g1 = g\<lparr>board := b'\<rparr>;
            let g2 = set_player_at g1 (current_player g1) (snd (place_piece (current g1)));
            g3 \<leftarrow> finalize_turn g2 position;
            Some (True, g3) }
          else Some (False, g) }"

definition handle_moving :: "Game \<Rightarrow> int \<Rightarrow> (bool \<times> Game) option" where
  "handle_moving g position =
     (case selected_piece g of
        None \<Rightarrow>
          do { c \<leftarrow> who_on_position (board g) position;
               if c = player_symbol (current g) then do {
                 adj \<leftarrow> get_empty_adjacent_positions (board g) position;
                 if adj \<noteq> [] then Some (True, g\<lparr>selected_piece := Some position\<rparr>)
                 else Some (False, g) }
               else Some (False, g) }
      | Some sel \<Rightarrow>
          if position = sel then Some (True, g\<lparr>selected_piece := None\<rparr>)
          else do {
            (ok, b') \<leftarrow> move_player_piece (board g) sel position (player_symbol (current g));
            if ok then do {
              g1 \<leftarrow> finalize_turn (g\<lparr>board := b'\<rparr>) position;
              Some (True, g1\<lparr>selected_piece := None\<rparr>) }
            else Some (False, g) })"

definition handle_flying :: "Game \<Rightarrow> int \<Rightarrow> (bool \<times> Game) option" where
  "handle_flying g position =
     (case selected_piece g of
        None \<Rightarrow>
          do { c \<leftarrow> who_on_position (board g) position;
               if c = player_symbol (current g)
               then Some (True, g\<lparr>selected_piece := Some position\<rparr>)
               else Some (False, g) }
      | Some sel \<Rightarrow>
          if position = sel then Some (True, g\<lparr>selected_piece := None\<rparr>)
          else do {
            (ok, b') \<leftarrow> fly_player_piece (board g) sel position (player_symbol (current g));
            if ok then do {
              g1 \<leftarrow> finalize_turn (g\<lparr>board := b'\<rparr>) position;
              Some (True, g1\<lparr>selected_piece := None\<rparr>) }
            else Some (False, g) })"

definition handle_removing_piece :: "Game \<Rightarrow> int \<Rightarrow> (bool \<times> Game) option" where
  "handle_removing_piece g position =
     do { allowed \<leftarrow> get_allowed_removals g;
          if position \<in> set allowed then do {
            (ok, b') \<leftarrow> remove_player_piece (board g) position;
            if ok then do {
              let g1 = g\<lparr>board := b'\<rparr>;
              let r = other_ref (current_player g1);
              let g2 = set_player_at g1 r (snd (remove_piece (player_at g1 r)));
              _ \<leftarrow> check_win_condition g2;
              g3 \<leftarrow> finalize_turn g2 position;
              Some (True, g3) }
            else Some (False, g) }
          else Some (False, g) }"

definition record_game_action :: "Game \<Rightarrow> int \<Rightarrow> Game" where
  "record_game_action g position =
     g\<lparr>game_history :=
          game_history g @ [(board g, current_player g, current_phase g, position)]\<rparr>"

definition handle_action :: "Game \<Rightarrow> int \<Rightarrow> (bool \<times> Game) option" where
  "handle_action g position =
     (if current_phase g = PLACING
        then handle_placing (record_game_action g position) position
      else if current_phase g = MOVING
        then handle_moving (record_game_action g position) position
      else if current_phase g = REMOVING_PIECE
        then handle_removing_piece (record_game_action g position) position
      else if current_phase g = FLYING
        then handle_flying (record_game_action g position) position
      else Some (False, g))"

definition undo_action :: "Game \<Rightarrow> bool \<times> Game" where
  "undo_action g =
     (if game_history g = [] then (False, g)
      else
        (let last_state = last (game_history g)
         in (True, g\<lparr>game_history := butlast (game_history g),
                       board := fst last_state,
                       current_player := fst (snd last_state),
                       current_phase := fst (snd (snd last_state))\<rparr>)))"

subsection \<open>Concrete players and positions\<close>

text \<open>The two players as the front end creates them.\<close>

definition player_X :: Player where
  "player_X = \<lparr>name = ''Player 1'', player_symbol = ''X'', pieces_in_hand = 9,
                pieces_on_board = 0, player_type = ''human''\<rparr>"

definition player_O :: Player where
  "player_O = \<lparr>name = ''Player 2'', player_symbol = ''O'', pieces_in_hand = 9,
                pieces_on_board = 0, player_type = ''human''\<rparr>"

text \<open>X on the top line 0, 1, 2 and O on 3 and 4.\<close>

definition top_mill_board :: board where
  "top_mill_board =
     [''X'', ''X'', ''X'', ''O'', ''O'', ''.'', ''.'', ''.'',
      ''.'', ''.'', ''.'', ''.'', ''.'', ''.'', ''.'', ''.'',
      ''.'', ''.'', ''.'', ''.'', ''.'', ''.'', ''.'', ''.'']"

text \<open>The position \<open>top_mill_board\<close> with O to move: the opponent X has all pieces in a mill.\<close>

definition protected_game :: Game where
  "protected_game =
     \<lparr>player1 = player_X\<lparr>pieces_in_hand := 6, pieces_on_board := 3\<rparr>,
      player2 = player_O\<lparr>pieces_in_hand := 7, pieces_on_board := 2\<rparr>,
      board = top_mill_board,
      current_player = P2,
      current_phase = REMOVING_PIECE,
      selected_piece = None,
      game_history = [],
      legal_moves = []\<rparr>"

text \<open>
  A blockade: O on 0, 1, 2 and 21, X on 4, 9, 14 and 22, both hands empty, X to move in
  the Moving phase. Every neighbour of an O piece is occupied.
\<close>

definition blocked_board :: board where
  "blocked_board =
     [''O'', ''O'', ''O'', ''.'', ''X'', ''.'', ''.'', ''.'',
      ''.'', ''X'', ''.'', ''.'', ''.'', ''.'', ''X'', ''.'',
      ''.'', ''.'', ''.'', ''.'', ''.'', ''O'', ''X'', ''.'']"

definition blocked_game :: Game where
  "blocked_game =
     \<lparr>player1 = player_X\<lparr>pieces_in_hand := 0, pieces_on_board := 4\<rparr>,
      player2 = player_O\<lparr>pieces_in_hand := 0, pieces_on_board := 4\<rparr>,
      board = blocked_board,
      current_player = P1,
      current_phase = MOVING,
      selected_piece = None,
      game_history = [],
      legal_moves = []\<rparr>"

text \<open>The state after X has placed the first piece of a game on position 0.\<close>

definition first_placement :: Game where
  "first_placement =
     \<lparr>player1 = player_X\<lparr>pieces_in_hand := 8, pieces_on_board := 1\<rparr>,
      player2 = player_O\<lparr>pieces_in_hand := 9, pieces_on_board := 0\<rparr>,
      board = make_new_board[0 := ''X''],
      current_player = P2,
      current_phase = PLACING,
      selected_piece = None,
      game_history = [(make_new_board, P1, PLACING, 0)],
      legal_moves = []\<rparr>"

text \<open>
  A middle game with both hands empty: X on 4, 19, 21 and 23, O on 0, 1 and 17, X to
  move. Moving 19 to 22 closes the mill 21, 22, 23.
\<close>

definition midgame_board :: board where
  "midgame_board =
     [''O'', ''O'', ''.'', ''.'', ''X'', ''.'', ''.'', ''.'',
      ''.'', ''.'', ''.'', ''.'', ''.'', ''.'', ''.'', ''.'',
      ''.'', ''O'', ''.'', ''X'', ''.'', ''X'', ''.'', ''X'']"

definition midgame :: Game where
  "midgame =
     \<lparr>player1 = player_X\<lparr>pieces_in_hand := 0, pieces_on_board := 4\<rparr>,
      player2 = player_O\<lparr>pieces_in_hand := 0, pieces_on_board := 3\<rparr>,
      board = midgame_board,
      current_player = P1,
      current_phase = MOVING,
      selected_piece = None,
      game_history = [],
      legal_moves = []\<rparr>"

text \<open>\<open>midgame\<close> after X has selected the piece on 19.\<close>

definition midgame_selected :: Game where
  "midgame_selected =
     midgame\<lparr>selected_piece := Some 19,
             game_history := [(midgame_board, P1, MOVING, 19)]\<rparr>"

text \<open>
  The state reached from \<open>midgame\<close> when X selects 19, moves it to 22, removes the O
  piece on 17 (which ends the game), the last two actions are undone, and X selects 19
  again: the board is that of \<open>midgame\<close>, the counter of O is the one after the removal.
\<close>

definition stale_game :: Game where
  "stale_game =
     \<lparr>player1 = player_X\<lparr>pieces_in_hand := 0, pieces_on_board := 4\<rparr>,
      player2 = player_O\<lparr>pieces_in_hand := 0, pieces_on_board := 2\<rparr>,
      board = midgame_board,
      current_player = P1,
      current_phase = MOVING,
      selected_piece = Some 19,
      game_history = [(midgame_board, P1, MOVING, 19), (midgame_board, P1, MOVING, 19)],
      legal_moves = []\<rparr>"

text \<open>The board of \<open>midgame\<close> after 19 has moved to 22, and after 19 has moved to 20.\<close>

definition mill_closed_board :: board where
  "mill_closed_board = midgame_board[19 := ''.'', 22 := ''X'']"


text \<open>\<open>midgame_selected\<close> after the move from 19 to 22: X is to remove a piece.\<close>

definition midgame_mill :: Game where
  "midgame_mill =
     midgame\<lparr>board := mill_closed_board,
             current_phase := REMOVING_PIECE,
             game_history := [(midgame_board, P1, MOVING, 19), (midgame_board, P1, MOVING, 22)]\<rparr>"

text \<open>
  \<open>midgame\<close> with O to move: O has three pieces on the board and none in hand, so it
  flies.
\<close>

definition midgame_flying :: Game where
  "midgame_flying = midgame\<lparr>current_player := P2, current_phase := FLYING\<rparr>"

text \<open>
  The state after the six actions 0, 3, 1, 4, 2, 3 of a new game: X has closed the top
  line and removed the O piece on 3.
\<close>

definition six_actions :: Game where
  "six_actions =
     \<lparr>player1 = player_X\<lparr>pieces_in_hand := 6, pieces_on_board := 3\<rparr>,
      player2 = player_O\<lparr>pieces_in_hand := 7, pieces_on_board := 1\<rparr>,
      board = top_mill_board[3 := ''.''],
      current_player = P2,
      current_phase = PLACING,
      selected_piece = None,
      game_history =
        [(make_new_board, P1, PLACING, 0),
         (make_new_board[0 := ''X''], P2, PLACING, 3),
         (make_new_board[0 := ''X'', 3 := ''O''], P1, PLACING, 1),
         (make_new_board[0 := ''X'', 3 := ''O'', 1 := ''X''], P2, PLACING, 4),
         (make_new_board[0 := ''X'', 3 := ''O'', 1 := ''X'', 4 := ''O''], P1, PLACING, 2),
         (top_mill_board, P1, REMOVING_PIECE, 3)],
      legal_moves = []\<rparr>"

text \<open>Chaining calls: the next action, or an undo, on the state a call returned.\<close>

definition then_action :: "Game option \<Rightarrow> int \<Rightarrow> Game option" where
  "then_action go position = do { g \<leftarrow> go; (_, g') \<leftarrow> handle_action g position; Some g' }"

definition then_undo :: "Game option \<Rightarrow> Game option" where
  "then_undo go = do { g \<leftarrow> go; Some (snd (undo_action g)) }"

text \<open>A sequence of calls of the two entry points, \<open>handle_action\<close> and \<open>undo_action\<close>.\<close>

datatype call = Action int | Undo

fun calls :: "Game option \<Rightarrow> call list \<Rightarrow> Game option" where
  "calls go [] = go"
| "calls go (Action position # cs) = calls (then_action go position) cs"
| "calls go (Undo # cs) = calls (then_undo go) cs"

text \<open>
  Forty-six calls on a new game. X places on 0 and undoes it six times, then places on
  0; O places on 3 and undoes it seven times; then 3, 1, 4, 2 are placed, which closes
  the top line for X with both hands empty; X removes the piece on 3 and undoes it six
  times, removes it once more, which ends the game, and the last two actions (the
  removal and the placement on 2) are undone.
\<close>

definition stale_placing_calls :: "call list" where
  "stale_placing_calls =
     concat (replicate 6 [Action 0, Undo]) @ [Action 0]
     @ concat (replicate 7 [Action 3, Undo])
     @ [Action 3, Action 1, Action 4, Action 2]
     @ concat (replicate 6 [Action 3, Undo])
     @ [Action 3, Undo, Undo]"

subsection \<open>The legal-removal set, in the words of the specification\<close>

text \<open>
  A position is part of a completed mill of symbol \<open>s\<close> when some mill triple contains
  it and all three cells of the triple hold \<open>s\<close>.
\<close>

definition in_completed_mill :: "board \<Rightarrow> string \<Rightarrow> int \<Rightarrow> bool" where
  "in_completed_mill b s p \<longleftrightarrow>
     (\<exists>mill\<in>set mills_arrays. p \<in> set mill \<and> (\<forall>q\<in>set mill. b ! nat q = s))"

definition positions_of :: "board \<Rightarrow> string \<Rightarrow> int set" where
  "positions_of b s = {p \<in> int ` {0..<length b}. b ! nat p = s}"

text \<open>
  All positions of \<open>s\<close> that are not part of a completed mill of \<open>s\<close>; when every
  position of \<open>s\<close> is part of one, all positions of \<open>s\<close>.
\<close>

definition legal_removal_set :: "board \<Rightarrow> string \<Rightarrow> int set" where
  "legal_removal_set b s =
     (let unprotected = {p \<in> positions_of b s. \<not> in_completed_mill b s p}
      in if unprotected = {} then positions_of b s else unprotected)"

subsection \<open>The material condition of the win check\<close>


text \<open>The material condition, seen from player \<open>a\<close>.\<close>

definition material_win_for :: "Game \<Rightarrow> player_ref \<Rightarrow> bool" where
  "material_win_for g a \<longleftrightarrow>
     pieces_in_hand (player_at g a) = 0 \<and> pieces_in_hand (player_at g (other_ref a)) = 0
     \<and> pieces_on_board (player_at g (other_ref a)) < 3"

subsection \<open>The counter invariant\<close>

text \<open>The number of occupied cells, and the invariant of the data model.\<close>

definition occupied_cells :: "board \<Rightarrow> nat" where
  "occupied_cells b = length (filter (\<lambda>c. c \<noteq> ''.'') b)"

definition counters_match :: "Game \<Rightarrow> bool" where
  "counters_match g \<longleftrightarrow>
     int (occupied_cells (board g)) = pieces_on_board (player1 g) + pieces_on_board (player2 g)"

text \<open>
  What the engine keeps true of board and counters: the board has 24 cells, the two
  symbols differ from each other and from the empty mark, every cell holds the empty
  mark or one of the two symbols, and each player's counter is the number of cells
  holding that player's symbol.
\<close>

definition board_inv :: "Game \<Rightarrow> bool" where
  "board_inv g \<longleftrightarrow>
     length (board g) = 24
     \<and> player_symbol (player1 g) \<noteq> player_symbol (player2 g)
     \<and> player_symbol (player1 g) \<noteq> ''.'' \<and> player_symbol (player2 g) \<noteq> ''.''
     \<and> set (board g) \<subseteq> {''.'', player_symbol (player1 g), player_symbol (player2 g)}
     \<and> pieces_on_board (player1 g) = int (count_list (board g) (player_symbol (player1 g)))
     \<and> pieces_on_board (player2 g) = int (count_list (board g) (player_symbol (player2 g)))"

text \<open>Together with: in the Placing phase the current player has a piece in hand.\<close>

definition game_inv :: "Game \<Rightarrow> bool" where
  "game_inv g \<longleftrightarrow>
     board_inv g \<and> (current_phase g = PLACING \<longrightarrow> 0 < pieces_in_hand (current g))"

text \<open>A sequence of \<open>handle_action\<close> calls, each on the state the one before returned.\<close>

fun play :: "Game option \<Rightarrow> int list \<Rightarrow> Game option" where
  "play go [] = go"
| "play go (position # positions) = play (then_action go position) positions"

subsection \<open>The session log with list objects and references\<close>

text \<open>
  In the source the board and the logged boards are list objects, and
  \<open>self.board_manager.board\<close> and the first component of a log entry are references to
  them. To speak about aliasing, the lists live in a heap here: an address is an index
  into the sequence of the list objects created so far, and \<open>xs.copy()\<close> creates a new
  object with the contents of \<open>xs\<close>. Objects that are no longer referenced stay in the
  heap.
\<close>

type_synonym addr = nat

record heap_game =
  h_player1 :: Player
  h_player2 :: Player
  h_heap :: "board list"
  h_board :: addr
  h_current_player :: player_ref
  h_current_phase :: GamePhase
  h_selected_piece :: "int option"
  h_game_history :: "(addr \<times> player_ref \<times> GamePhase \<times> int) list"
  h_legal_moves :: "int list"

text \<open>\<open>xs.copy()\<close> for the list at address \<open>a\<close>: the new heap and the address of the copy.\<close>

definition list_copy :: "board list \<Rightarrow> addr \<Rightarrow> board list \<times> addr" where
  "list_copy hp a = (hp @ [hp ! a], length hp)"

definition record_game_action_heap :: "heap_game \<Rightarrow> int \<Rightarrow> heap_game" where
  "record_game_action_heap s position =
     (let (hp, a) = list_copy (h_heap s) (h_board s)
      in s\<lparr>h_heap := hp,
            h_game_history := h_game_history s
               @ [(a, h_current_player s, h_current_phase s, position)]\<rparr>)"

definition undo_action_heap :: "heap_game \<Rightarrow> bool \<times> heap_game" where
  "undo_action_heap s =
     (if h_game_history s = [] then (False, s)
      else
        (let last_state = last (h_game_history s);
             (hp, a) = list_copy (h_heap s) (fst last_state)
         in (True, s\<lparr>h_game_history := butlast (h_game_history s),
                       h_heap := hp,
                       h_board := a,
                       h_current_player := fst (snd last_state),
                       h_current_phase := fst (snd (snd last_state))\<rparr>)))"

text \<open>An item assignment \<open>self.board[k] = v\<close> on the live board object.\<close>

definition board_setitem_heap :: "heap_game \<Rightarrow> nat \<Rightarrow> string \<Rightarrow> heap_game" where
  "board_setitem_heap s k v =
     s\<lparr>h_heap := (h_heap s)[h_board s := (h_heap s ! h_board s)[k := v]]\<rparr>"

text \<open>
  Every reference points to an object of the heap, and no log entry refers to the live
  board object.
\<close>

definition heap_wf :: "heap_game \<Rightarrow> bool" where
  "heap_wf s \<longleftrightarrow>
     h_board s < length (h_heap s)
     \<and> list_all (\<lambda>e. fst e < length (h_heap s) \<and> fst e \<noteq> h_board s) (h_game_history s)"

text \<open>The game state a heap state stands for: every reference replaced by its list.\<close>

definition game_of :: "heap_game \<Rightarrow> Game" where
  "game_of s =
     \<lparr>player1 = h_player1 s,
      player2 = h_player2 s,
      board = h_heap s ! h_board s,
      current_player = h_current_player s,
      current_phase = h_current_phase s,
      selected_piece = h_selected_piece s,
      game_history = map (\<lambda>e. (h_heap s ! fst e, snd e)) (h_game_history s),
      legal_moves = h_legal_moves s\<rparr>"

text \<open>\<open>first_placement\<close> with its two list objects: the board at 0, the snapshot at 1.\<close>

definition first_placement_heap :: heap_game where
  "first_placement_heap =
     \<lparr>h_player1 = player_X\<lparr>pieces_in_hand := 8, pieces_on_board := 1\<rparr>,
      h_player2 = player_O\<lparr>pieces_in_hand := 9, pieces_on_board := 0\<rparr>,
      h_heap = [make_new_board[0 := ''X''], make_new_board],
      h_board = 0,
      h_current_player = P2,
      h_current_phase = PLACING,
      h_selected_piece = None,
      h_game_history = [(1, P1, PLACING, 0)],
      h_legal_moves = []\<rparr>"

section \<open>Properties\<close>

subsection \<open>Indexing and the two tables\<close>

lemma py_getitem_in_range:
  "0 \<le> i \<Longrightarrow> i < int (length xs) \<Longrightarrow> py_getitem xs i = Some (xs ! nat i)"
  by (simp add: py_getitem_def py_index_def)

lemma py_setitem_in_range:
  "0 \<le> i \<Longrightarrow> i < int (length xs) \<Longrightarrow> py_setitem xs i v = Some (xs[nat i := v])"
  by (simp add: py_setitem_def py_index_def)

lemma py_setitem_length: "py_setitem xs i v = Some ys \<Longrightarrow> length ys = length xs"
  by (auto simp: py_setitem_def py_index_def split: if_splits)

lemma mills_in_range:
  "mill \<in> set mills_arrays \<Longrightarrow> q \<in> set mill \<Longrightarrow> 0 \<le> q \<and> q < 24"
  by (auto simp: mills_arrays_def)

lemma adjacent_in_range:
  "adjs \<in> set adjacent_arrays \<Longrightarrow> q \<in> set adjs \<Longrightarrow> 0 \<le> q \<and> q < 24"
  by (auto simp: adjacent_arrays_def)

lemma length_adjacent_arrays: "length adjacent_arrays = 24"
  by (simp add: adjacent_arrays_def)

lemma all_match_True_iff:
  "all_match b s mill = Some True \<longleftrightarrow> (\<forall>q\<in>set mill. py_getitem b q = Some s)"
  by (induction mill) (auto split: Option.bind_splits)

lemma all_match_total:
  "\<forall>q\<in>set mill. py_getitem b q \<noteq> None \<Longrightarrow> all_match b s mill \<noteq> None"
  by (induction mill) (auto split: Option.bind_splits)

lemma mill_scan_total:
  "\<forall>mill\<in>set mills. all_match b s mill \<noteq> None \<Longrightarrow> mill_scan b loc s mills \<noteq> None"
  by (induction mills) (auto split: Option.bind_splits)

lemma mill_scan_True_iff:
  assumes "\<forall>mill\<in>set mills. all_match b s mill \<noteq> None"
  shows "mill_scan b loc s mills = Some True \<longleftrightarrow>
         (\<exists>mill\<in>set mills. loc \<in> set mill \<and> all_match b s mill = Some True)"
  using assms by (induction mills) (auto split: Option.bind_splits)

lemma mill_scan_True_D:
  "mill_scan b loc s mills = Some True \<Longrightarrow>
     \<exists>mill\<in>set mills. loc \<in> set mill \<and> all_match b s mill = Some True"
  by (induction mills) (auto split: Option.bind_splits if_splits)

lemma all_match_mills_total:
  "length b = 24 \<Longrightarrow> mill \<in> set mills_arrays \<Longrightarrow> all_match b s mill \<noteq> None"
  by (rule all_match_total) (auto dest!: mills_in_range simp: py_getitem_in_range)

lemma py_index_less: "py_index n i = Some k \<Longrightarrow> k < n"
  by (auto simp: py_index_def split: if_splits)

subsection \<open>Mill detection\<close>

text \<open>
  C8. On a board of 24 cells: there are 16 mill triples, and whenever the three cells
  of one of them hold the same non-empty symbol, \<open>is_position_part_of_mill\<close> returns
  True at each of its three positions; it returns False at a position whose cell is
  empty; and it returns True at \<open>pos\<close> only if some mill triple containing \<open>pos\<close> has
  all three cells holding the symbol at \<open>pos\<close>.
\<close>

theorem mill_detection:
  assumes len: "length b = 24"
  shows "length mills_arrays = 16
    \<and> (\<forall>mill\<in>set mills_arrays. \<forall>s. s \<noteq> ''.'' \<longrightarrow>
          (\<forall>q\<in>set mill. py_getitem b q = Some s) \<longrightarrow>
          (\<forall>p\<in>set mill. is_position_part_of_mill b p = Some True))
    \<and> (py_getitem b pos = Some ''.'' \<longrightarrow> is_position_part_of_mill b pos = Some False)
    \<and> (is_position_part_of_mill b pos = Some True \<longrightarrow>
          (\<exists>mill\<in>set mills_arrays. pos \<in> set mill
             \<and> (\<forall>q\<in>set mill. py_getitem b q = py_getitem b pos)))"
proof (intro conjI ballI allI impI)
  show "length mills_arrays = 16" by (simp add: mills_arrays_def)
next
  fix mill s p
  assume mill: "mill \<in> set mills_arrays" and s: "s \<noteq> ''.''"
    and full: "\<forall>q\<in>set mill. py_getitem b q = Some s" and p: "p \<in> set mill"
  have tot: "\<forall>m\<in>set mills_arrays. all_match b s m \<noteq> None"
    using len by (simp add: all_match_mills_total)
  have "all_match b s mill = Some True"
    using full by (simp add: all_match_True_iff)
  with mill p have "mill_scan b p s mills_arrays = Some True"
    unfolding mill_scan_True_iff [OF tot] by blast
  moreover have "who_on_position b p = Some s"
    using full p by (simp add: who_on_position_def)
  ultimately show "is_position_part_of_mill b p = Some True"
    using s by (simp add: is_position_part_of_mill_def)
next
  assume "py_getitem b pos = Some ''.''"
  then show "is_position_part_of_mill b pos = Some False"
    by (simp add: is_position_part_of_mill_def who_on_position_def)
next
  assume t: "is_position_part_of_mill b pos = Some True"
  then obtain s where s: "py_getitem b pos = Some s"
    and scan: "mill_scan b pos s mills_arrays = Some True"
    by (auto simp: is_position_part_of_mill_def who_on_position_def
             split: Option.bind_splits if_splits)
  from mill_scan_True_D [OF scan] obtain mill where
    "mill \<in> set mills_arrays" "pos \<in> set mill" "all_match b s mill = Some True"
    by blast
  then show "\<exists>mill\<in>set mills_arrays. pos \<in> set mill
             \<and> (\<forall>q\<in>set mill. py_getitem b q = py_getitem b pos)"
    using s by (auto simp: all_match_True_iff)
qed

theorem mill_detection_witness:
  "length top_mill_board = 24
   \<and> [0, 1, 2] \<in> set mills_arrays
   \<and> py_getitem top_mill_board 0 = Some ''X''
   \<and> py_getitem top_mill_board 1 = Some ''X''
   \<and> py_getitem top_mill_board 2 = Some ''X''
   \<and> is_position_part_of_mill top_mill_board 0 = Some True
   \<and> is_position_part_of_mill top_mill_board 1 = Some True
   \<and> is_position_part_of_mill top_mill_board 2 = Some True
   \<and> py_getitem top_mill_board 5 = Some ''.''
   \<and> is_position_part_of_mill top_mill_board 5 = Some False"
proof -
  have len: "length top_mill_board = 24"
    by (simp add: top_mill_board_def)
  have mill: "[0, 1, 2] \<in> set mills_arrays"
    by (simp add: mills_arrays_def)
  have c0: "py_getitem top_mill_board 0 = Some ''X''"
    and c1: "py_getitem top_mill_board 1 = Some ''X''"
    and c2: "py_getitem top_mill_board 2 = Some ''X''"
    by (simp_all add: top_mill_board_def py_getitem_in_range)
  have full: "q \<in> set [0, 1, 2] \<Longrightarrow> py_getitem top_mill_board q = Some ''X''" for q
    using c0 c1 c2 by auto
  have empty: "py_getitem top_mill_board 5 = Some ''.''"
    by (simp add: top_mill_board_def py_getitem_in_range)
  note t = mill_detection [OF len, of 5]
  from t have t1: "\<forall>mill\<in>set mills_arrays. \<forall>s. s \<noteq> ''.'' \<longrightarrow>
          (\<forall>q\<in>set mill. py_getitem top_mill_board q = Some s) \<longrightarrow>
          (\<forall>p\<in>set mill. is_position_part_of_mill top_mill_board p = Some True)"
    by (rule conjunct1 [OF conjunct2])
  from t have t2: "py_getitem top_mill_board 5 = Some ''.'' \<longrightarrow>
      is_position_part_of_mill top_mill_board 5 = Some False"
    by (rule conjunct1 [OF conjunct2 [OF conjunct2]])
  have x: "''X'' \<noteq> ''.''" by simp
  have a: "p \<in> set [0, 1, 2] \<Longrightarrow> is_position_part_of_mill top_mill_board p = Some True" for p
    using t1 [rule_format, OF mill x full] .
  have b: "is_position_part_of_mill top_mill_board 5 = Some False"
    using t2 empty by (rule mp)
  show ?thesis
    by (intro conjI len mill c0 c1 c2 empty b a) simp_all
qed

subsection \<open>Moving a piece\<close>

lemma is_position_empty_in_range:
  "0 \<le> i \<Longrightarrow> i < int (length b) \<Longrightarrow> is_position_empty b i = Some (b ! nat i = ''.'')"
  by (simp add: is_position_empty_def py_getitem_in_range)

text \<open>
  C6. On a board of 24 cells and for positions \<open>from_position\<close>, \<open>to_position\<close> in
  \<open>[0, 23]\<close> and every symbol \<open>s\<close>, \<open>move_player_piece\<close> returns without raising; it
  returns True if and only if the cell at \<open>from_position\<close> holds \<open>s\<close>, the cell at
  \<open>to_position\<close> is empty and \<open>to_position\<close> is in \<open>adjacent_arrays[from_position]\<close>.
  On success the cell at \<open>from_position\<close> is empty, the cell at \<open>to_position\<close> holds
  \<open>s\<close> and every other cell is as before; on failure the board is as before.
\<close>

theorem move_player_piece_spec:
  assumes len: "length b = 24"
    and f: "0 \<le> from_position" "from_position < 24"
    and t: "0 \<le> to_position" "to_position < 24"
  shows "\<exists>ok b'. move_player_piece b from_position to_position s = Some (ok, b')
     \<and> (ok \<longleftrightarrow> b ! nat from_position = s \<and> b ! nat to_position = ''.''
                \<and> to_position \<in> set (adjacent_arrays ! nat from_position))
     \<and> (ok \<longrightarrow> length b' = 24 \<and> b' ! nat from_position = ''.'' \<and> b' ! nat to_position = s
               \<and> (\<forall>k<24. k \<noteq> nat from_position \<and> k \<noteq> nat to_position \<longrightarrow> b' ! k = b ! k))
     \<and> (\<not> ok \<longrightarrow> b' = b)"
proof -
  have gf: "py_getitem b from_position = Some (b ! nat from_position)"
    using len f by (simp add: py_getitem_in_range)
  have et: "is_position_empty b to_position = Some (b ! nat to_position = ''.'')"
    using len t by (simp add: is_position_empty_in_range)
  have ga: "py_getitem adjacent_arrays from_position = Some (adjacent_arrays ! nat from_position)"
    using f by (simp add: py_getitem_in_range length_adjacent_arrays)
  have s1: "py_setitem b from_position ''.'' = Some (b[nat from_position := ''.''])"
    using len f by (simp add: py_setitem_in_range)
  have s2: "py_setitem (b[nat from_position := ''.'']) to_position s
              = Some (b[nat from_position := ''.'', nat to_position := s])"
    using len t by (simp add: py_setitem_in_range)
  have nf: "nat from_position < 24" and nt: "nat to_position < 24"
    using f t by simp_all
  show ?thesis
    unfolding move_player_piece_def gf et ga
    using len nf nt by (auto simp: s1 s2 nth_list_update)
qed


theorem move_player_piece_spec_witness:
  "length top_mill_board = 24
   \<and> (\<exists>b'. move_player_piece top_mill_board 2 14 ''X'' = Some (True, b')
         \<and> length b' = 24 \<and> b' ! 2 = ''.'' \<and> b' ! 14 = ''X'' \<and> b' ! 0 = top_mill_board ! 0)
   \<and> move_player_piece top_mill_board 0 1 ''X'' = Some (False, top_mill_board)"
proof -
  have len: "length top_mill_board = 24"
    by (simp add: top_mill_board_def)
  have c2: "top_mill_board ! nat 2 = ''X''" and c14: "top_mill_board ! nat 14 = ''.''"
    and c1: "top_mill_board ! nat 1 \<noteq> ''.''"
    by (simp_all add: top_mill_board_def)
  have adj: "(14::int) \<in> set (adjacent_arrays ! nat 2)"
    by (simp add: adjacent_arrays_def)
  obtain ok b' where m: "move_player_piece top_mill_board 2 14 ''X'' = Some (ok, b')"
    and ok: "ok \<longleftrightarrow> top_mill_board ! nat 2 = ''X'' \<and> top_mill_board ! nat 14 = ''.''
                \<and> 14 \<in> set (adjacent_arrays ! nat 2)"
    and eff: "ok \<longrightarrow> length b' = 24 \<and> b' ! nat 2 = ''.'' \<and> b' ! nat 14 = ''X''
               \<and> (\<forall>k<24. k \<noteq> nat 2 \<and> k \<noteq> nat 14 \<longrightarrow> b' ! k = top_mill_board ! k)"
    using move_player_piece_spec [OF len, of 2 14 "''X''"] by auto
  from ok c2 c14 adj have ok
    by simp
  with m eff have first: "\<exists>b'. move_player_piece top_mill_board 2 14 ''X'' = Some (True, b')
         \<and> length b' = 24 \<and> b' ! 2 = ''.'' \<and> b' ! 14 = ''X'' \<and> b' ! 0 = top_mill_board ! 0"
    by auto
  obtain ok2 b2 where m2: "move_player_piece top_mill_board 0 1 ''X'' = Some (ok2, b2)"
    and ok2: "ok2 \<longleftrightarrow> top_mill_board ! nat 0 = ''X'' \<and> top_mill_board ! nat 1 = ''.''
                \<and> 1 \<in> set (adjacent_arrays ! nat 0)"
    and eff2: "\<not> ok2 \<longrightarrow> b2 = top_mill_board"
    using move_player_piece_spec [OF len, of 0 1 "''X''"] by auto
  from ok2 c1 have "\<not> ok2"
    by simp
  with m2 eff2 have second: "move_player_piece top_mill_board 0 1 ''X'' = Some (False, top_mill_board)"
    by simp
  show ?thesis
    using len first second by (intro conjI)
qed

subsection \<open>Legal removals\<close>

lemma set_get_players_positions:
  "set (get_players_positions b s) = positions_of b s"
  by (auto simp: get_players_positions_def positions_of_def)

lemma distinct_get_players_positions: "distinct (get_players_positions b s)"
  by (simp add: get_players_positions_def distinct_map inj_on_def)

lemma get_players_positions_D:
  "p \<in> set (get_players_positions b s) \<Longrightarrow> 0 \<le> p \<and> p < int (length b) \<and> b ! nat p = s"
  by (auto simp: get_players_positions_def)

lemma all_match_in_range:
  "length b = 24 \<Longrightarrow> mill \<in> set mills_arrays \<Longrightarrow>
     all_match b s mill = Some (\<forall>q\<in>set mill. b ! nat q = s)"
proof -
  assume len: "length b = 24" and mill: "mill \<in> set mills_arrays"
  have r: "\<forall>q\<in>set mill. py_getitem b q = Some (b ! nat q)"
    using len mills_in_range [OF mill] by (simp add: py_getitem_in_range)
  have "all_match b s mill \<noteq> None"
    using r by (intro all_match_total) simp
  moreover have "all_match b s mill = Some True \<longleftrightarrow> (\<forall>q\<in>set mill. b ! nat q = s)"
    using r by (simp add: all_match_True_iff)
  ultimately show ?thesis by (cases "all_match b s mill") auto
qed

lemma mill_scan_in_range:
  assumes len: "length b = 24"
  shows "mill_scan b p s mills_arrays = Some (in_completed_mill b s p)"
proof -
  have tot: "\<forall>mill\<in>set mills_arrays. all_match b s mill \<noteq> None"
    using len by (simp add: all_match_mills_total)
  have "mill_scan b p s mills_arrays \<noteq> None"
    using tot by (rule mill_scan_total)
  moreover have "mill_scan b p s mills_arrays = Some True \<longleftrightarrow> in_completed_mill b s p"
    unfolding mill_scan_True_iff [OF tot] in_completed_mill_def
    using len by (auto simp: all_match_in_range)
  ultimately show ?thesis by (cases "mill_scan b p s mills_arrays") auto
qed

lemma is_position_part_of_mill_in_range:
  assumes "length b = 24" "0 \<le> p" "p < 24"
  shows "is_position_part_of_mill b p =
           Some (b ! nat p \<noteq> ''.'' \<and> in_completed_mill b (b ! nat p) p)"
  using assms
  by (simp add: is_position_part_of_mill_def who_on_position_def py_getitem_in_range
                mill_scan_in_range)

lemma non_mill_among_eq:
  assumes len: "length b = 24" and s: "s \<noteq> ''.''"
  shows "\<forall>p\<in>set ps. 0 \<le> p \<and> p < 24 \<and> b ! nat p = s \<Longrightarrow>
         non_mill_among b ps = Some (filter (\<lambda>p. \<not> in_completed_mill b s p) ps)"
  using len s by (induction ps) (auto simp: is_position_part_of_mill_in_range)

lemma get_allowed_removals_opponent:
  assumes len: "length (board g) = 24"
    and s: "player_symbol (opponent_player g) \<noteq> ''.''"
  shows "\<exists>r. get_allowed_removals g = Some r \<and> distinct r
           \<and> set r = legal_removal_set (board g) (player_symbol (opponent_player g))"
proof -
  let ?b = "board g" and ?s = "player_symbol (opponent_player g)"
  let ?opp = "get_players_positions ?b ?s"
  have rng: "\<forall>p\<in>set ?opp. 0 \<le> p \<and> p < 24 \<and> ?b ! nat p = ?s"
    using len by (auto dest: get_players_positions_D)
  have nm: "non_mill_among ?b ?opp = Some (filter (\<lambda>p. \<not> in_completed_mill ?b ?s p) ?opp)"
    by (rule non_mill_among_eq [OF len s rng])
  have "set (filter (\<lambda>p. \<not> in_completed_mill ?b ?s p) ?opp)
          = {p \<in> positions_of ?b ?s. \<not> in_completed_mill ?b ?s p}"
    by (auto simp: set_get_players_positions)
  then show ?thesis
    unfolding get_allowed_removals_def Let_def nm legal_removal_set_def
    by (auto simp: set_get_players_positions distinct_get_players_positions
             simp flip: set_empty)
qed

lemma opponent_player_explicit:
  "opponent_player g = (if current_player g = P1 then player2 g else player1 g)"
  by (cases "current_player g") (simp_all add: opponent_player_def other_ref_def player_at_def)

lemma player_at_other_ref_explicit:
  "player_at g (other_ref (current_player g))
     = (if current_player g = P1 then player2 g else player1 g)"
  by (cases "current_player g") (simp_all add: other_ref_def player_at_def)

text \<open>
  C7. The opponent is the player who is not the current player: \<open>player2\<close> when
  \<open>player1\<close> is to move, \<open>player1\<close> otherwise. On a board of 24 cells (the opponent's
  symbol being a piece symbol, not the empty mark), \<open>get_allowed_removals\<close> returns,
  without repetition, exactly the opponent's positions that are not part of any of the
  opponent's completed mills, unless every opponent position is part of a mill, in
  which case it returns all of the opponent's positions.
\<close>

theorem get_allowed_removals_spec:
  assumes len: "length (board g) = 24"
    and s: "player_symbol (if current_player g = P1 then player2 g else player1 g) \<noteq> ''.''"
  shows "player_at g (other_ref (current_player g))
           = (if current_player g = P1 then player2 g else player1 g)
    \<and> (\<exists>r. get_allowed_removals g = Some r \<and> distinct r
          \<and> set r = legal_removal_set (board g)
                (player_symbol (if current_player g = P1 then player2 g else player1 g)))"
  using get_allowed_removals_opponent [OF len] s
  unfolding opponent_player_explicit player_at_other_ref_explicit by simp

theorem get_allowed_removals_spec_witness:
  "length (board protected_game) = 24
   \<and> current_player protected_game = P2
   \<and> player_symbol (player1 protected_game) = ''X''
   \<and> (\<exists>r. get_allowed_removals protected_game = Some r \<and> distinct r
         \<and> set r = legal_removal_set (board protected_game) ''X'')
   \<and> get_allowed_removals protected_game = Some [0, 1, 2]
   \<and> length (board midgame_mill) = 24
   \<and> current_player midgame_mill = P1
   \<and> player_symbol (player2 midgame_mill) = ''O''
   \<and> (\<exists>r. get_allowed_removals midgame_mill = Some r \<and> distinct r
         \<and> set r = legal_removal_set (board midgame_mill) ''O'')
   \<and> get_allowed_removals midgame_mill = Some [0, 1, 17]"
proof -
  have len: "length (board protected_game) = 24"
    and cp: "current_player protected_game = P2"
    and sx: "player_symbol (player1 protected_game) = ''X''"
    by (simp_all add: protected_game_def top_mill_board_def player_X_def)
  have s: "player_symbol (if current_player protected_game = P1
             then player2 protected_game else player1 protected_game) \<noteq> ''.''"
    by (simp add: cp sx)
  have v: "get_allowed_removals protected_game = Some [0, 1, 2]"
    by code_simp
  have a: "\<exists>r. get_allowed_removals protected_game = Some r \<and> distinct r
         \<and> set r = legal_removal_set (board protected_game) ''X''"
    using get_allowed_removals_spec [OF len s] by (simp add: cp sx)
  have len': "length (board midgame_mill) = 24"
    and cp': "current_player midgame_mill = P1"
    and so: "player_symbol (player2 midgame_mill) = ''O''"
    by (simp_all add: midgame_mill_def midgame_def mill_closed_board_def midgame_board_def
                      player_O_def)
  have s': "player_symbol (if current_player midgame_mill = P1
             then player2 midgame_mill else player1 midgame_mill) \<noteq> ''.''"
    by (simp add: cp' so)
  have v': "get_allowed_removals midgame_mill = Some [0, 1, 17]"
    by code_simp
  have b: "\<exists>r. get_allowed_removals midgame_mill = Some r \<and> distinct r
         \<and> set r = legal_removal_set (board midgame_mill) ''O''"
    using get_allowed_removals_spec [OF len' s'] by (simp add: cp' so)
  show ?thesis
    using len cp sx a v len' cp' so b v' by (intro conjI)
qed

subsection \<open>The queries return on a board of 24 cells\<close>

lemma get_players_positions_in_range:
  "length b = 24 \<Longrightarrow> p \<in> set (get_players_positions b s) \<Longrightarrow> 0 \<le> p \<and> p < 24"
  by (auto dest: get_players_positions_D)

lemma empty_among_in_range:
  "length b = 24 \<Longrightarrow> \<forall>q\<in>set adjs. 0 \<le> q \<and> q < 24 \<Longrightarrow>
     empty_among b adjs = Some (filter (\<lambda>q. b ! nat q = ''.'') adjs)"
  by (induction adjs) (auto simp: is_position_empty_in_range)

lemma get_empty_adjacent_positions_in_range:
  assumes "length b = 24" "0 \<le> p" "p < 24"
  shows "get_empty_adjacent_positions b p
           = Some (filter (\<lambda>q. b ! nat q = ''.'') (adjacent_arrays ! nat p))"
proof -
  have "adjacent_arrays ! nat p \<in> set adjacent_arrays"
    using assms by (intro nth_mem) (simp add: length_adjacent_arrays)
  then have "\<forall>q\<in>set (adjacent_arrays ! nat p). 0 \<le> q \<and> q < 24"
    using adjacent_in_range by blast
  then show ?thesis
    using assms
    by (simp add: get_empty_adjacent_positions_def py_getitem_in_range
                  length_adjacent_arrays empty_among_in_range)
qed

lemma get_allowed_moves_total:
  "length (board g) = 24 \<Longrightarrow> 0 \<le> p \<Longrightarrow> p < 24 \<Longrightarrow> get_allowed_moves g p \<noteq> None"
  by (simp add: get_allowed_moves_def get_empty_adjacent_positions_in_range)

lemma some_allowed_move_total:
  "length (board g) = 24 \<Longrightarrow> \<forall>p\<in>set ps. 0 \<le> p \<and> p < 24 \<Longrightarrow>
     some_allowed_move g ps \<noteq> None"
proof (induction ps)
  case Nil
  then show ?case by simp
next
  case (Cons p ps)
  then obtain ms where "get_allowed_moves g p = Some ms"
    using get_allowed_moves_total [of g p] by auto
  with Cons show ?case by auto
qed

lemma some_allowed_move_opponent:
  assumes len: "length (board g) = 24"
  shows "some_allowed_move g
      (get_players_positions (board g) (player_symbol (opponent_player g))) \<noteq> None"
  using some_allowed_move_total [OF len] get_players_positions_in_range [OF len]
  by blast

lemma check_win_condition_total:
  assumes len: "length (board g) = 24"
  shows "check_win_condition g \<noteq> None"
  using some_allowed_move_opponent [OF len]
  by (auto simp: check_win_condition_def Let_def)


lemma is_position_part_of_mill_total:
  assumes "length b = 24" "py_getitem b p \<noteq> None"
  shows "is_position_part_of_mill b p \<noteq> None"
proof -
  have "mill_scan b p c mills_arrays \<noteq> None" for c
    using assms(1) by (intro mill_scan_total) (simp add: all_match_mills_total)
  then show ?thesis
    using assms(2) by (auto simp: is_position_part_of_mill_def who_on_position_def)
qed

lemma update_game_phase_total:
  "length (board g) = 24 \<Longrightarrow> update_game_phase g \<noteq> None"
  using check_win_condition_total [of g] by (auto simp: update_game_phase_def)

lemma finalize_turn_total:
  assumes len: "length (board g) = 24" and c: "py_getitem (board g) p \<noteq> None"
  shows "finalize_turn g p \<noteq> None"
proof -
  have w: "check_win_condition g \<noteq> None"
    using check_win_condition_total [OF len] .
  have m: "is_position_part_of_mill (board g) p \<noteq> None"
    using is_position_part_of_mill_total [OF len c] .
  have "update_game_phase (switch_player g) \<noteq> None"
    using len by (intro update_game_phase_total) (simp add: switch_player_def)
  then show ?thesis
    using w m by (auto simp: finalize_turn_def)
qed

subsection \<open>Win by blocking\<close>

text \<open>
  C1. The claim is that a state in which the opponent has a piece on the board and no
  opponent piece has a legal destination is reported as a win by \<open>check_win_condition\<close>.
  In \<open>blocked_game\<close> both hands are empty, the opponent O has four pieces on the board,
  none of them has an empty neighbour, and \<open>check_win_condition\<close> returns False: the
  guard before the final \<open>return True\<close> tests \<open>pieces_in_hand >= 0\<close>, which holds of
  every hand.
\<close>

theorem blockade_not_reported:
  "pieces_in_hand (current blocked_game) = 0
   \<and> pieces_in_hand (opponent_player blocked_game) = 0
   \<and> player_symbol (opponent_player blocked_game) = ''O''
   \<and> get_players_positions (board blocked_game) ''O'' = [0, 1, 2, 21]
   \<and> get_empty_adjacent_positions (board blocked_game) 0 = Some []
   \<and> get_empty_adjacent_positions (board blocked_game) 1 = Some []
   \<and> get_empty_adjacent_positions (board blocked_game) 2 = Some []
   \<and> get_empty_adjacent_positions (board blocked_game) 21 = Some []
   \<and> check_win_condition blocked_game = Some False"
  by code_simp

subsection \<open>Fields that the operations leave alone\<close>

lemma player_at_update [simp]:
  "player_at (g\<lparr>board := b\<rparr>) r = player_at g r"
  "player_at (g\<lparr>current_player := c\<rparr>) r = player_at g r"
  "player_at (g\<lparr>current_phase := ph\<rparr>) r = player_at g r"
  "player_at (g\<lparr>selected_piece := sp\<rparr>) r = player_at g r"
  "player_at (g\<lparr>game_history := h\<rparr>) r = player_at g r"
  by (cases r; simp add: player_at_def)+

lemma current_update [simp]:
  "current (g\<lparr>board := b\<rparr>) = current g"
  "current (g\<lparr>current_phase := ph\<rparr>) = current g"
  "current (g\<lparr>selected_piece := sp\<rparr>) = current g"
  "current (g\<lparr>game_history := h\<rparr>) = current g"
  by (simp_all add: current_def)

lemma opponent_player_update [simp]:
  "opponent_player (g\<lparr>board := b\<rparr>) = opponent_player g"
  "opponent_player (g\<lparr>current_phase := ph\<rparr>) = opponent_player g"
  "opponent_player (g\<lparr>selected_piece := sp\<rparr>) = opponent_player g"
  "opponent_player (g\<lparr>game_history := h\<rparr>) = opponent_player g"
  by (simp_all add: opponent_player_def)

lemma set_player_at_same [simp]:
  "set_player_at g r (player_at g r) = g"
  by (cases r) (simp_all add: set_player_at_def player_at_def)

lemma set_player_at_fields [simp]:
  "board (set_player_at g r p) = board g"
  "current_player (set_player_at g r p) = current_player g"
  "current_phase (set_player_at g r p) = current_phase g"
  "selected_piece (set_player_at g r p) = selected_piece g"
  "game_history (set_player_at g r p) = game_history g"
  "legal_moves (set_player_at g r p) = legal_moves g"
  by (cases r; simp add: set_player_at_def)+

lemma player_at_set_player_at [simp]:
  "player_at (set_player_at g r p) r' = (if r' = r then p else player_at g r')"
  by (cases r; cases r'; simp add: set_player_at_def player_at_def)

lemma finalize_turn_fields:
  "finalize_turn g p = Some g' \<Longrightarrow>
     board g' = board g \<and> player1 g' = player1 g \<and> player2 g' = player2 g
     \<and> selected_piece g' = selected_piece g \<and> game_history g' = game_history g
     \<and> legal_moves g' = legal_moves g"
  by (auto simp: finalize_turn_def update_game_phase_def switch_player_def
           split: Option.bind_splits if_splits)

lemma py_setitem_total:
  "py_getitem xs i \<noteq> None \<Longrightarrow> py_setitem xs i v \<noteq> None"
  by (auto simp: py_getitem_def py_setitem_def split: Option.bind_splits)

lemma py_get_set_same:
  "py_setitem xs i v = Some ys \<Longrightarrow> py_getitem ys i = Some v"
  by (auto simp: py_getitem_def py_setitem_def py_index_def split: if_splits)

subsection \<open>Placing with an empty hand\<close>

text \<open>
  C10. When \<open>handle_placing\<close> is called on a board of 24 cells while the current
  player's \<open>pieces_in_hand\<close> is 0 and the target cell is empty, it returns True, the
  current player's symbol is written to the cell, and both player records (so both
  \<open>pieces_in_hand\<close> and \<open>pieces_on_board\<close>) are as before: the False return of
  \<open>place_piece\<close> is ignored.
\<close>

theorem placing_with_empty_hand:
  assumes len: "length (board g) = 24"
    and hand: "pieces_in_hand (current g) = 0"
    and empty: "is_position_empty (board g) position = Some True"
  shows "\<exists>g'. handle_placing g position = Some (True, g')
           \<and> py_setitem (board g) position (player_symbol (current g)) = Some (board g')
           \<and> py_getitem (board g') position = Some (player_symbol (current g))
           \<and> player1 g' = player1 g \<and> player2 g' = player2 g"
proof -
  let ?s = "player_symbol (current g)"
  have get: "py_getitem (board g) position \<noteq> None"
    using empty by (auto simp: is_position_empty_def split: Option.bind_splits)
  then obtain b' where set: "py_setitem (board g) position ?s = Some b'"
    using py_setitem_total [of "board g" position ?s] by auto
  have len': "length b' = 24"
    using py_setitem_length [OF set] len by simp
  have get': "py_getitem b' position = Some ?s"
    using py_get_set_same [OF set] .
  have add: "add_player_piece (board g) position ?s = Some (True, b')"
    using empty set by (simp add: add_player_piece_def)
  have pl: "snd (place_piece (current g)) = current g"
    using hand by (simp add: place_piece_def)
  have same: "set_player_at (g\<lparr>board := b'\<rparr>) (current_player g) (current g) = g\<lparr>board := b'\<rparr>"
    using set_player_at_same [of "g\<lparr>board := b'\<rparr>" "current_player g"]
    by (simp add: current_def)
  have "finalize_turn (g\<lparr>board := b'\<rparr>) position \<noteq> None"
    using len' get' by (intro finalize_turn_total) simp_all
  then obtain g' where fin: "finalize_turn (g\<lparr>board := b'\<rparr>) position = Some g'"
    by auto
  have "handle_placing g position = Some (True, g')"
    using add fin by (simp add: handle_placing_def pl same)
  moreover have "board g' = b'" "player1 g' = player1 g" "player2 g' = player2 g"
    using finalize_turn_fields [OF fin] by simp_all
  ultimately show ?thesis
    using set get' by auto
qed


theorem placing_with_empty_hand_witness:
  "length (board blocked_game) = 24
   \<and> pieces_in_hand (current blocked_game) = 0
   \<and> is_position_empty (board blocked_game) 3 = Some True
   \<and> (\<exists>g'. handle_placing blocked_game 3 = Some (True, g')
         \<and> py_getitem (board g') 3 = Some ''X''
         \<and> player1 g' = player1 blocked_game \<and> player2 g' = player2 blocked_game)"
proof -
  have len: "length (board blocked_game) = 24"
    by (simp add: blocked_game_def blocked_board_def)
  have hand: "pieces_in_hand (current blocked_game) = 0"
    by (simp add: blocked_game_def current_def player_at_def)
  have empty: "is_position_empty (board blocked_game) 3 = Some True"
    by (simp add: blocked_game_def blocked_board_def is_position_empty_in_range)
  have s: "player_symbol (current blocked_game) = ''X''"
    by (simp add: blocked_game_def current_def player_at_def player_X_def)
  show ?thesis
    using len hand empty placing_with_empty_hand [OF len hand empty] unfolding s
    by blast
qed

subsection \<open>Rejected actions\<close>

lemma handle_placing_False:
  "handle_placing g position = Some (False, g') \<Longrightarrow> g' = g"
  by (auto simp: handle_placing_def add_player_piece_def Let_def
           split: Option.bind_splits if_splits prod.splits)

lemma move_player_piece_False:
  "move_player_piece b f t s = Some (False, b') \<Longrightarrow> b' = b"
  by (auto simp: move_player_piece_def split: Option.bind_splits if_splits)

lemma fly_player_piece_False:
  "fly_player_piece b f t s = Some (False, b') \<Longrightarrow> b' = b"
  by (auto simp: fly_player_piece_def split: Option.bind_splits if_splits)

lemma handle_moving_False:
  "handle_moving g position = Some (False, g') \<Longrightarrow> g' = g"
  by (auto simp: handle_moving_def
           split: option.splits Option.bind_splits if_splits prod.splits)

lemma handle_flying_False:
  "handle_flying g position = Some (False, g') \<Longrightarrow> g' = g"
  by (auto simp: handle_flying_def
           split: option.splits Option.bind_splits if_splits prod.splits)

lemma handle_removing_piece_False:
  "handle_removing_piece g position = Some (False, g') \<Longrightarrow> g' = g"
  by (auto simp: handle_removing_piece_def Let_def
           split: Option.bind_splits if_splits prod.splits)

lemma handle_action_False:
  assumes "handle_action g position = Some (False, g')"
  shows "g' = (if current_phase g = GAME_OVER then g else record_game_action g position)"
proof (cases "current_phase g")
  case PLACING
  with assms show ?thesis by (auto simp: handle_action_def dest: handle_placing_False)
next
  case MOVING
  with assms show ?thesis by (auto simp: handle_action_def dest: handle_moving_False)
next
  case FLYING
  with assms show ?thesis by (auto simp: handle_action_def dest: handle_flying_False)
next
  case REMOVING_PIECE
  with assms show ?thesis
    by (auto simp: handle_action_def dest: handle_removing_piece_False)
next
  case GAME_OVER
  with assms show ?thesis by (simp add: handle_action_def)
qed

lemma first_placement_reached:
  "handle_action (new_game player_X player_O) 0 = Some (True, first_placement)"
  by code_simp

lemma first_placement_rejects:
  "handle_action first_placement 0 = Some (False, record_game_action first_placement 0)"
  by code_simp

text \<open>
  C3, as amended. Whenever \<open>handle_action\<close> returns False, the board, both players'
  counters (both player records), the current player, the phase, the selected piece
  and \<open>legal_moves\<close> are as before the call. The session log is as before in the
  GameOver phase; in every other phase it has gained exactly one entry, the snapshot
  (board, current player, phase, position) that \<open>record_game_action\<close> appends before
  the handler runs.
\<close>

theorem rejected_action_state:
  assumes "handle_action g position = Some (False, g')"
  shows "player1 g' = player1 g \<and> player2 g' = player2 g \<and> board g' = board g
    \<and> current_player g' = current_player g \<and> current_phase g' = current_phase g
    \<and> selected_piece g' = selected_piece g \<and> legal_moves g' = legal_moves g
    \<and> game_history g' =
        (if current_phase g = GAME_OVER then game_history g
         else game_history g @ [(board g, current_player g, current_phase g, position)])"
  using handle_action_False [OF assms] by (simp add: record_game_action_def)

theorem rejected_action_state_witness:
  "handle_action first_placement 0 = Some (False, record_game_action first_placement 0)
   \<and> player1 (record_game_action first_placement 0) = player1 first_placement
   \<and> player2 (record_game_action first_placement 0) = player2 first_placement
   \<and> board (record_game_action first_placement 0) = board first_placement
   \<and> current_player (record_game_action first_placement 0) = P2
   \<and> current_phase (record_game_action first_placement 0) = PLACING
   \<and> selected_piece (record_game_action first_placement 0) = None
   \<and> game_history (record_game_action first_placement 0)
       = game_history first_placement @ [(board first_placement, P2, PLACING, 0)]"
  using first_placement_rejects rejected_action_state [OF first_placement_rejects]
  by (simp add: first_placement_def)

text \<open>
  The claim as stated fails on the log: after X's first placement on position 0, O's
  placement on the same position is rejected, and the log has grown from one entry to
  two.
\<close>

theorem rejected_action_changes_log:
  "handle_action (new_game player_X player_O) 0 = Some (True, first_placement)
   \<and> handle_action first_placement 0 = Some (False, record_game_action first_placement 0)
   \<and> game_history first_placement = [(make_new_board, P1, PLACING, 0)]
   \<and> game_history (record_game_action first_placement 0)
       = [(make_new_board, P1, PLACING, 0), (make_new_board[0 := ''X''], P2, PLACING, 0)]
   \<and> game_history (record_game_action first_placement 0) \<noteq> game_history first_placement"
  using first_placement_reached first_placement_rejects
  by (simp add: record_game_action_def first_placement_def)

subsection \<open>Positions outside the board\<close>

lemma py_getitem_out_of_range:
  "i < - int (length xs) \<or> int (length xs) \<le> i \<Longrightarrow> py_getitem xs i = None"
  by (auto simp: py_getitem_def py_index_def)

lemma py_getitem_negative:
  "- int (length xs) \<le> i \<Longrightarrow> i < 0 \<Longrightarrow> py_getitem xs i = py_getitem xs (i + int (length xs))"
  by (auto simp: py_getitem_def py_index_def add.commute)

lemma py_setitem_negative:
  "- int (length xs) \<le> i \<Longrightarrow> i < 0 \<Longrightarrow>
     py_setitem xs i v = py_setitem xs (i + int (length xs)) v"
  by (auto simp: py_setitem_def py_index_def add.commute)

lemma non_mill_among_total:
  "length b = 24 \<Longrightarrow> \<forall>p\<in>set ps. 0 \<le> p \<and> p < 24 \<Longrightarrow> non_mill_among b ps \<noteq> None"
proof (induction ps)
  case Nil
  then show ?case by simp
next
  case (Cons p ps)
  then have "is_position_part_of_mill b p \<noteq> None"
    by (intro is_position_part_of_mill_total) (simp_all add: py_getitem_in_range)
  with Cons show ?case by auto
qed

lemma non_mill_among_subset:
  "non_mill_among b ps = Some r \<Longrightarrow> set r \<subseteq> set ps"
  by (induction ps arbitrary: r) (auto split: Option.bind_splits if_splits)

lemma get_allowed_removals_in_range:
  assumes len: "length (board g) = 24"
  shows "\<exists>r. get_allowed_removals g = Some r \<and> (\<forall>p\<in>set r. 0 \<le> p \<and> p < 24)"
proof -
  let ?opp = "get_players_positions (board g) (player_symbol (opponent_player g))"
  have rng: "\<forall>p\<in>set ?opp. 0 \<le> p \<and> p < 24"
    using get_players_positions_in_range [OF len] by blast
  then obtain nm where nm: "non_mill_among (board g) ?opp = Some nm"
    using non_mill_among_total [OF len] by blast
  have "set nm \<subseteq> set ?opp"
    using non_mill_among_subset [OF nm] .
  with rng nm show ?thesis
    by (auto simp: get_allowed_removals_def Let_def)
qed

lemma get_allowed_removals_history [simp]:
  "get_allowed_removals (g\<lparr>game_history := h\<rparr>) = get_allowed_removals g"
  by (simp add: get_allowed_removals_def)

lemma handle_removing_piece_out_of_range:
  assumes len: "length (board g) = 24" and out: "position < 0 \<or> 23 < position"
  shows "handle_removing_piece g position = Some (False, g)"
proof -
  obtain r where r: "get_allowed_removals g = Some r" "\<forall>p\<in>set r. 0 \<le> p \<and> p < 24"
    using get_allowed_removals_in_range [OF len] by blast
  then have "position \<notin> set r"
    using out by auto
  with r show ?thesis
    by (simp add: handle_removing_piece_def)
qed

lemma out_of_range_basic:
  assumes len: "length (board g) = 24" and out: "position < 0 \<or> 23 < position"
  shows "(current_phase g = GAME_OVER \<longrightarrow> handle_action g position = Some (False, g))
    \<and> (current_phase g = REMOVING_PIECE \<longrightarrow>
          handle_action g position = Some (False, record_game_action g position))
    \<and> (position < - 24 \<or> 23 < position \<longrightarrow>
          is_position_empty (board g) position = None
          \<and> who_on_position (board g) position = None
          \<and> add_player_piece (board g) position s = None
          \<and> remove_player_piece (board g) position = None
          \<and> (current_phase g = PLACING \<longrightarrow> handle_action g position = None)
          \<and> ((current_phase g = MOVING \<or> current_phase g = FLYING)
                \<and> selected_piece g = None \<longrightarrow> handle_action g position = None))
    \<and> (- 24 \<le> position \<and> position < 0 \<longrightarrow>
          is_position_empty (board g) position = is_position_empty (board g) (position + 24)
          \<and> who_on_position (board g) position = who_on_position (board g) (position + 24)
          \<and> add_player_piece (board g) position s
              = add_player_piece (board g) (position + 24) s
          \<and> remove_player_piece (board g) position
              = remove_player_piece (board g) (position + 24))"
proof (intro conjI impI)
  assume "current_phase g = GAME_OVER"
  then show "handle_action g position = Some (False, g)"
    by (simp add: handle_action_def)
next
  assume "current_phase g = REMOVING_PIECE"
  moreover have "handle_removing_piece (record_game_action g position) position
                   = Some (False, record_game_action g position)"
    using len out by (intro handle_removing_piece_out_of_range)
                     (simp_all add: record_game_action_def)
  ultimately show "handle_action g position = Some (False, record_game_action g position)"
    by (simp add: handle_action_def)
next
  assume far: "position < - 24 \<or> 23 < position"
  then have none: "py_getitem (board g) position = None"
    using len by (intro py_getitem_out_of_range) auto
  show e: "is_position_empty (board g) position = None"
    by (simp add: is_position_empty_def none)
  show w: "who_on_position (board g) position = None"
    by (simp add: who_on_position_def none)
  show "add_player_piece (board g) position s = None"
    by (simp add: add_player_piece_def e)
  show "remove_player_piece (board g) position = None"
    by (simp add: remove_player_piece_def e)
  {
    assume "current_phase g = PLACING"
    then show "handle_action g position = None"
      by (simp add: handle_action_def handle_placing_def add_player_piece_def e
                    record_game_action_def)
  next
    assume "(current_phase g = MOVING \<or> current_phase g = FLYING) \<and> selected_piece g = None"
    then show "handle_action g position = None"
      by (auto simp: handle_action_def handle_moving_def handle_flying_def w
                     record_game_action_def)
  }
next
  assume neg: "- 24 \<le> position \<and> position < 0"
  then have g: "py_getitem (board g) position = py_getitem (board g) (position + 24)"
    and st: "\<And>v. py_setitem (board g) position v = py_setitem (board g) (position + 24) v"
    using len py_getitem_negative [of "board g" position]
          py_setitem_negative [of "board g" position] by simp_all
  show e: "is_position_empty (board g) position = is_position_empty (board g) (position + 24)"
    by (simp add: is_position_empty_def g)
  show "who_on_position (board g) position = who_on_position (board g) (position + 24)"
    by (simp add: who_on_position_def g)
  show "add_player_piece (board g) position s = add_player_piece (board g) (position + 24) s"
    unfolding add_player_piece_def e st by (rule refl)
  show "remove_player_piece (board g) position
          = remove_player_piece (board g) (position + 24)"
    unfolding remove_player_piece_def e st by (rule refl)
qed


subsection \<open>Positions outside the board, phase by phase\<close>

lemma py_getitem_near:
  "length xs = 24 \<Longrightarrow> - 24 \<le> i \<Longrightarrow> i < 0 \<Longrightarrow> py_getitem xs i = Some (xs ! nat (i + 24))"
  by (simp add: py_getitem_def py_index_def add.commute)

lemma py_setitem_near:
  "length xs = 24 \<Longrightarrow> - 24 \<le> i \<Longrightarrow> i < 0 \<Longrightarrow>
     py_setitem xs i v = Some (xs[nat (i + 24) := v])"
  by (simp add: py_setitem_def py_index_def add.commute)

lemma is_position_empty_near:
  "length b = 24 \<Longrightarrow> - 24 \<le> i \<Longrightarrow> i < 0 \<Longrightarrow>
     is_position_empty b i = Some (b ! nat (i + 24) = ''.'')"
  by (simp add: is_position_empty_def py_getitem_near)

lemma py_getitem_far:
  "length xs = 24 \<Longrightarrow> i < - 24 \<or> 23 < i \<Longrightarrow> py_getitem xs i = None"
  by (rule py_getitem_out_of_range) auto

lemma adjacent_of_cell:
  assumes "length b = 24" "py_getitem b sel = Some c"
  shows "\<exists>adjs. py_getitem adjacent_arrays sel = Some adjs \<and> adjs \<in> set adjacent_arrays"
proof -
  from assms obtain k where k: "py_index 24 sel = Some k"
    by (auto simp: py_getitem_def split: Option.bind_splits)
  then have "k < 24" by (rule py_index_less)
  then have "adjacent_arrays ! k \<in> set adjacent_arrays"
    by (intro nth_mem) (simp add: length_adjacent_arrays)
  then show ?thesis
    using k by (simp add: py_getitem_def length_adjacent_arrays)
qed

lemma negative_not_adjacent:
  "adjs \<in> set adjacent_arrays \<Longrightarrow> i < 0 \<Longrightarrow> i \<notin> set adjs"
  using adjacent_in_range by force

lemma handle_placing_far:
  "length (board g) = 24 \<Longrightarrow> position < - 24 \<or> 23 < position \<Longrightarrow>
     handle_placing g position = None"
  by (simp add: handle_placing_def add_player_piece_def is_position_empty_def py_getitem_far)

lemma handle_placing_near:
  assumes len: "length (board g) = 24" and near: "- 24 \<le> position" "position < 0"
  shows "(board g ! nat (position + 24) \<noteq> ''.'' \<longrightarrow>
            handle_placing g position = Some (False, g))
    \<and> (board g ! nat (position + 24) = ''.'' \<longrightarrow>
          (\<exists>g'. handle_placing g position = Some (True, g')
             \<and> board g' = (board g)[nat (position + 24) := player_symbol (current g)]))"
proof (intro conjI impI)
  assume "board g ! nat (position + 24) \<noteq> ''.''"
  then show "handle_placing g position = Some (False, g)"
    using len near by (simp add: handle_placing_def add_player_piece_def is_position_empty_near)
next
  let ?s = "player_symbol (current g)"
  let ?b = "(board g)[nat (position + 24) := ?s]"
  let ?g2 = "set_player_at (g\<lparr>board := ?b\<rparr>) (current_player g) (snd (place_piece (current g)))"
  assume e: "board g ! nat (position + 24) = ''.''"
  have add: "add_player_piece (board g) position ?s = Some (True, ?b)"
    using len near e by (simp add: add_player_piece_def is_position_empty_near py_setitem_near)
  have "py_getitem ?b position \<noteq> None"
    using len near by (simp add: py_getitem_near)
  then have "finalize_turn ?g2 position \<noteq> None"
    using len by (intro finalize_turn_total) simp_all
  then obtain g' where f: "finalize_turn ?g2 position = Some g'"
    by auto
  have "handle_placing g position = Some (True, g')"
    using add f by (simp add: handle_placing_def)
  moreover have "board g' = ?b"
    using finalize_turn_fields [OF f] by simp
  ultimately show "\<exists>g'. handle_placing g position = Some (True, g') \<and> board g' = ?b"
    by blast
qed

lemma handle_moving_flying_same:
  "selected_piece g = Some position \<Longrightarrow>
     handle_moving g position = Some (True, g\<lparr>selected_piece := None\<rparr>)
     \<and> handle_flying g position = Some (True, g\<lparr>selected_piece := None\<rparr>)"
  by (simp add: handle_moving_def handle_flying_def)

lemma handle_moving_flying_far_unselected:
  "length (board g) = 24 \<Longrightarrow> position < - 24 \<or> 23 < position \<Longrightarrow>
   selected_piece g = None \<Longrightarrow>
     handle_moving g position = None \<and> handle_flying g position = None"
  by (simp add: handle_moving_def handle_flying_def who_on_position_def py_getitem_far)

lemma move_fly_far:
  assumes len: "length b = 24" and far: "position < - 24 \<or> 23 < position"
  shows "move_player_piece b sel position s
           = (case py_getitem b sel of None \<Rightarrow> None
              | Some c \<Rightarrow> if c = s then None else Some (False, b))"
    and "fly_player_piece b sel position s
           = (case py_getitem b sel of None \<Rightarrow> None
              | Some c \<Rightarrow> if c = s then None else Some (False, b))"
  using len far
  by (auto simp: move_player_piece_def fly_player_piece_def is_position_empty_def
                 py_getitem_far split: option.splits)

lemma handle_moving_flying_far_selected:
  assumes len: "length (board g) = 24" and far: "position < - 24 \<or> 23 < position"
    and sel: "selected_piece g = Some sel" "sel \<noteq> position"
  shows "handle_moving g position
           = (case py_getitem (board g) sel of None \<Rightarrow> None
              | Some c \<Rightarrow> if c = player_symbol (current g) then None else Some (False, g))"
    and "handle_flying g position
           = (case py_getitem (board g) sel of None \<Rightarrow> None
              | Some c \<Rightarrow> if c = player_symbol (current g) then None else Some (False, g))"
  using sel
  by (auto simp: handle_moving_def handle_flying_def move_fly_far [OF len far]
           split: option.splits)


lemma get_empty_adjacent_positions_near:
  assumes len: "length b = 24" and near: "- 24 \<le> position" "position < 0"
  shows "get_empty_adjacent_positions b position
           = Some (filter (\<lambda>a. b ! nat a = ''.'') (adjacent_arrays ! nat (position + 24)))"
proof -
  have "adjacent_arrays ! nat (position + 24) \<in> set adjacent_arrays"
    using near by (intro nth_mem) (simp add: length_adjacent_arrays)
  then have "\<forall>a\<in>set (adjacent_arrays ! nat (position + 24)). 0 \<le> a \<and> a < 24"
    using adjacent_in_range by blast
  then show ?thesis
    using len near
    by (simp add: get_empty_adjacent_positions_def py_getitem_near length_adjacent_arrays
                  empty_among_in_range)
qed

lemma handle_moving_near_unselected:
  assumes len: "length (board g) = 24" and near: "- 24 \<le> position" "position < 0"
    and sel: "selected_piece g = None"
  shows "handle_moving g position =
     (if board g ! nat (position + 24) = player_symbol (current g)
         \<and> (\<exists>a\<in>set (adjacent_arrays ! nat (position + 24)). board g ! nat a = ''.'')
      then Some (True, g\<lparr>selected_piece := Some position\<rparr>) else Some (False, g))"
  using sel len near
  by (auto simp: handle_moving_def who_on_position_def py_getitem_near
                 get_empty_adjacent_positions_near filter_empty_conv)

lemma handle_flying_near_unselected:
  assumes len: "length (board g) = 24" and near: "- 24 \<le> position" "position < 0"
    and sel: "selected_piece g = None"
  shows "handle_flying g position =
     (if board g ! nat (position + 24) = player_symbol (current g)
      then Some (True, g\<lparr>selected_piece := Some position\<rparr>) else Some (False, g))"
  using sel len near
  by (simp add: handle_flying_def who_on_position_def py_getitem_near)

lemma move_player_piece_near:
  assumes len: "length b = 24" and near: "- 24 \<le> position" "position < 0"
  shows "move_player_piece b sel position s
           = (case py_getitem b sel of None \<Rightarrow> None | Some c \<Rightarrow> Some (False, b))"
proof (cases "py_getitem b sel")
  case None
  then show ?thesis by (simp add: move_player_piece_def)
next
  case (Some c)
  from adjacent_of_cell [OF len Some] obtain adjs where
    a: "py_getitem adjacent_arrays sel = Some adjs" "adjs \<in> set adjacent_arrays"
    by blast
  have "position \<notin> set adjs"
    using negative_not_adjacent [OF a(2) near(2)] .
  then show ?thesis
    using Some a(1) len near
    by (simp add: move_player_piece_def is_position_empty_near)
qed

lemma handle_moving_near_selected:
  assumes len: "length (board g) = 24" and near: "- 24 \<le> position" "position < 0"
    and sel: "selected_piece g = Some sel" "sel \<noteq> position"
  shows "handle_moving g position
           = (case py_getitem (board g) sel of None \<Rightarrow> None | Some c \<Rightarrow> Some (False, g))"
  using sel
  by (auto simp: handle_moving_def move_player_piece_near [OF len near] split: option.splits)

lemma handle_flying_near_selected:
  assumes len: "length (board g) = 24" and near: "- 24 \<le> position" "position < 0"
    and sel: "selected_piece g = Some sel" "sel \<noteq> position"
  shows "case py_getitem (board g) sel of
           None \<Rightarrow> handle_flying g position = None
         | Some c \<Rightarrow>
             if c = player_symbol (current g) \<and> board g ! nat (position + 24) = ''.''
             then (\<exists>g' b1. py_setitem (board g) sel ''.'' = Some b1
                    \<and> handle_flying g position = Some (True, g')
                    \<and> board g' = b1[nat (position + 24) := player_symbol (current g)]
                    \<and> selected_piece g' = None)
             else handle_flying g position = Some (False, g)"
proof (cases "py_getitem (board g) sel")
  case None
  then show ?thesis
    using sel by (simp add: handle_flying_def fly_player_piece_def)
next
  case (Some c)
  let ?s = "player_symbol (current g)"
  show ?thesis
  proof (cases "c = ?s \<and> board g ! nat (position + 24) = ''.''")
    case False
    then have "fly_player_piece (board g) sel position ?s = Some (False, board g)"
      using Some len near by (auto simp: fly_player_piece_def is_position_empty_near)
    then show ?thesis
      using sel Some False by (simp add: handle_flying_def)
  next
    case True
    obtain b1 where b1: "py_setitem (board g) sel ''.'' = Some b1"
      using py_setitem_total [of "board g" sel "''.''"] Some by auto
    have len1: "length b1 = 24"
      using py_setitem_length [OF b1] len by simp
    let ?b2 = "b1[nat (position + 24) := ?s]"
    have fly: "fly_player_piece (board g) sel position ?s = Some (True, ?b2)"
      using Some True b1 len len1 near
      by (simp add: fly_player_piece_def is_position_empty_near py_setitem_near)
    have "py_getitem ?b2 position \<noteq> None"
      using len1 near by (simp add: py_getitem_near)
    then have "finalize_turn (g\<lparr>board := ?b2\<rparr>) position \<noteq> None"
      using len1 by (intro finalize_turn_total) simp_all
    then obtain g1 where f: "finalize_turn (g\<lparr>board := ?b2\<rparr>) position = Some g1"
      by auto
    have "handle_flying g position = Some (True, g1\<lparr>selected_piece := None\<rparr>)"
      using sel fly f by (simp add: handle_flying_def)
    moreover have "board (g1\<lparr>selected_piece := None\<rparr>) = ?b2"
      using finalize_turn_fields [OF f] by simp
    ultimately have "\<exists>g' b1. py_setitem (board g) sel ''.'' = Some b1
                    \<and> handle_flying g position = Some (True, g')
                    \<and> board g' = b1[nat (position + 24) := ?s]
                    \<and> selected_piece g' = None"
      using b1 by (intro exI [of _ "g1\<lparr>selected_piece := None\<rparr>"] exI [of _ b1]) simp
    then show ?thesis
      using Some True by simp
  qed
qed


text \<open>
  C2, as amended. On a board of 24 cells, for an integer position outside \<open>[0, 23]\<close>,
  with \<open>rg\<close> the state after \<open>record_game_action\<close> (the same state with one more log
  entry) and \<open>s\<close> the current player's symbol, \<open>handle_action\<close> does the following.
  In the GameOver phase it returns False and the state is unchanged; in the
  RemovingPiece phase it returns False and the state is \<open>rg\<close>. In the Moving and
  Flying phases, when the position equals the selected piece, it returns True and
  clears the selection.

  For a position below \<open>-24\<close> or above 23, the BoardManager operations
  \<open>is_position_empty\<close>, \<open>who_on_position\<close>, \<open>add_player_piece\<close> and
  \<open>remove_player_piece\<close> raise \<open>IndexError\<close>. So does \<open>handle_action\<close> in the
  Placing phase, and in the Moving and Flying phases when no piece is selected. When
  another piece is selected, it raises if the selected index is itself out of range or
  the selected cell holds \<open>s\<close>, and returns False with state \<open>rg\<close> otherwise.

  For a position in \<open>[-24, -1]\<close> the BoardManager operations act on the cell
  \<open>position + 24\<close>. In the Placing phase \<open>handle_action\<close> returns False with state
  \<open>rg\<close> when that cell is occupied, and returns True with \<open>s\<close> written to that cell
  when it is empty. In the Moving phase with no piece selected it selects the position
  and returns True when that cell holds \<open>s\<close> and has an empty neighbour, and returns
  False with state \<open>rg\<close> otherwise; in the Flying phase with no piece selected it does
  so when that cell holds \<open>s\<close>. In the Moving phase with another piece selected it
  raises if the selected index is out of range and returns False with state \<open>rg\<close>
  otherwise. In the Flying phase with another piece selected it raises if the selected
  index is out of range, flies the piece to that cell and returns True when the
  selected cell holds \<open>s\<close> and that cell is empty, and returns False with state \<open>rg\<close>
  otherwise.
\<close>

theorem out_of_range_position:
  assumes len: "length (board g) = 24" and out: "position < 0 \<or> 23 < position"
    and rg: "rg = record_game_action g position"
    and s: "s = player_symbol (player_at g (current_player g))"
  shows "(current_phase g = GAME_OVER \<longrightarrow> handle_action g position = Some (False, g))
    \<and> (current_phase g = REMOVING_PIECE \<longrightarrow> handle_action g position = Some (False, rg))
    \<and> ((current_phase g = MOVING \<or> current_phase g = FLYING)
          \<and> selected_piece g = Some position \<longrightarrow>
          handle_action g position = Some (True, rg\<lparr>selected_piece := None\<rparr>))
    \<and> (position < - 24 \<or> 23 < position \<longrightarrow>
          is_position_empty (board g) position = None
          \<and> who_on_position (board g) position = None
          \<and> add_player_piece (board g) position v = None
          \<and> remove_player_piece (board g) position = None
          \<and> (current_phase g = PLACING \<longrightarrow> handle_action g position = None)
          \<and> ((current_phase g = MOVING \<or> current_phase g = FLYING)
                \<and> selected_piece g = None \<longrightarrow> handle_action g position = None)
          \<and> (\<forall>sel. (current_phase g = MOVING \<or> current_phase g = FLYING)
                \<and> selected_piece g = Some sel \<and> sel \<noteq> position \<longrightarrow>
                handle_action g position
                  = (case py_getitem (board g) sel of None \<Rightarrow> None
                     | Some c \<Rightarrow> if c = s then None else Some (False, rg))))
    \<and> (- 24 \<le> position \<and> position < 0 \<longrightarrow>
          is_position_empty (board g) position = is_position_empty (board g) (position + 24)
          \<and> who_on_position (board g) position = who_on_position (board g) (position + 24)
          \<and> add_player_piece (board g) position v
              = add_player_piece (board g) (position + 24) v
          \<and> remove_player_piece (board g) position
              = remove_player_piece (board g) (position + 24)
          \<and> (current_phase g = PLACING \<and> board g ! nat (position + 24) \<noteq> ''.'' \<longrightarrow>
                handle_action g position = Some (False, rg))
          \<and> (current_phase g = PLACING \<and> board g ! nat (position + 24) = ''.'' \<longrightarrow>
                (\<exists>g'. handle_action g position = Some (True, g')
                   \<and> board g' = (board g)[nat (position + 24) := s]))
          \<and> (current_phase g = MOVING \<and> selected_piece g = None \<longrightarrow>
                handle_action g position =
                  (if board g ! nat (position + 24) = s
                      \<and> (\<exists>a\<in>set (adjacent_arrays ! nat (position + 24)).
                            board g ! nat a = ''.'')
                   then Some (True, rg\<lparr>selected_piece := Some position\<rparr>)
                   else Some (False, rg)))
          \<and> (current_phase g = FLYING \<and> selected_piece g = None \<longrightarrow>
                handle_action g position =
                  (if board g ! nat (position + 24) = s
                   then Some (True, rg\<lparr>selected_piece := Some position\<rparr>)
                   else Some (False, rg)))
          \<and> (\<forall>sel. current_phase g = MOVING \<and> selected_piece g = Some sel
                \<and> sel \<noteq> position \<longrightarrow>
                handle_action g position
                  = (case py_getitem (board g) sel of None \<Rightarrow> None
                     | Some c \<Rightarrow> Some (False, rg)))
          \<and> (\<forall>sel. current_phase g = FLYING \<and> selected_piece g = Some sel
                \<and> sel \<noteq> position \<longrightarrow>
                (case py_getitem (board g) sel of
                   None \<Rightarrow> handle_action g position = None
                 | Some c \<Rightarrow>
                     if c = s \<and> board g ! nat (position + 24) = ''.''
                     then (\<exists>g' b1. py_setitem (board g) sel ''.'' = Some b1
                            \<and> handle_action g position = Some (True, g')
                            \<and> board g' = b1[nat (position + 24) := s]
                            \<and> selected_piece g' = None)
                     else handle_action g position = Some (False, rg))))"
proof -
  have r: "board rg = board g" "selected_piece rg = selected_piece g"
    "current rg = current g" "length (board rg) = 24"
    using len by (simp_all add: rg record_game_action_def)
  have s': "s = player_symbol (current rg)"
    unfolding s r(3) by (simp add: current_def)
  note basic = out_of_range_basic [OF len out, of v, folded rg]
  have same: "(current_phase g = MOVING \<or> current_phase g = FLYING)
          \<and> selected_piece g = Some position \<longrightarrow>
          handle_action g position = Some (True, rg\<lparr>selected_piece := None\<rparr>)"
    using handle_moving_flying_same [of rg position]
    by (auto simp: handle_action_def r simp flip: rg)
  have far: "position < - 24 \<or> 23 < position \<longrightarrow>
      (\<forall>sel. (current_phase g = MOVING \<or> current_phase g = FLYING)
                \<and> selected_piece g = Some sel \<and> sel \<noteq> position \<longrightarrow>
                handle_action g position
                  = (case py_getitem (board g) sel of None \<Rightarrow> None
                     | Some c \<Rightarrow> if c = s then None else Some (False, rg)))"
  proof (intro impI allI)
    fix sel
    assume f: "position < - 24 \<or> 23 < position"
      and a: "(current_phase g = MOVING \<or> current_phase g = FLYING)
                \<and> selected_piece g = Some sel \<and> sel \<noteq> position"
    from a have sp: "selected_piece rg = Some sel" "sel \<noteq> position"
      by (simp_all add: r)
    note hs = handle_moving_flying_far_selected [OF r(4) f sp, unfolded r(1), folded s']
    from a have "handle_action g position = handle_moving rg position
        \<or> handle_action g position = handle_flying rg position"
      by (auto simp: handle_action_def rg)
    then show "handle_action g position
                  = (case py_getitem (board g) sel of None \<Rightarrow> None
                     | Some c \<Rightarrow> if c = s then None else Some (False, rg))"
      using hs by auto
  qed
  have near: "- 24 \<le> position \<and> position < 0 \<longrightarrow>
      (current_phase g = PLACING \<and> board g ! nat (position + 24) \<noteq> ''.'' \<longrightarrow>
                handle_action g position = Some (False, rg))
          \<and> (current_phase g = PLACING \<and> board g ! nat (position + 24) = ''.'' \<longrightarrow>
                (\<exists>g'. handle_action g position = Some (True, g')
                   \<and> board g' = (board g)[nat (position + 24) := s]))
          \<and> (current_phase g = MOVING \<and> selected_piece g = None \<longrightarrow>
                handle_action g position =
                  (if board g ! nat (position + 24) = s
                      \<and> (\<exists>a\<in>set (adjacent_arrays ! nat (position + 24)).
                            board g ! nat a = ''.'')
                   then Some (True, rg\<lparr>selected_piece := Some position\<rparr>)
                   else Some (False, rg)))
          \<and> (current_phase g = FLYING \<and> selected_piece g = None \<longrightarrow>
                handle_action g position =
                  (if board g ! nat (position + 24) = s
                   then Some (True, rg\<lparr>selected_piece := Some position\<rparr>)
                   else Some (False, rg)))
          \<and> (\<forall>sel. current_phase g = MOVING \<and> selected_piece g = Some sel
                \<and> sel \<noteq> position \<longrightarrow>
                handle_action g position
                  = (case py_getitem (board g) sel of None \<Rightarrow> None
                     | Some c \<Rightarrow> Some (False, rg)))
          \<and> (\<forall>sel. current_phase g = FLYING \<and> selected_piece g = Some sel
                \<and> sel \<noteq> position \<longrightarrow>
                (case py_getitem (board g) sel of
                   None \<Rightarrow> handle_action g position = None
                 | Some c \<Rightarrow>
                     if c = s \<and> board g ! nat (position + 24) = ''.''
                     then (\<exists>g' b1. py_setitem (board g) sel ''.'' = Some b1
                            \<and> handle_action g position = Some (True, g')
                            \<and> board g' = b1[nat (position + 24) := s]
                            \<and> selected_piece g' = None)
                     else handle_action g position = Some (False, rg)))"
  proof (intro impI)
    assume n: "- 24 \<le> position \<and> position < 0"
    then have n1: "- 24 \<le> position" and n2: "position < 0" by simp_all
    note pl = handle_placing_near [OF r(4) n1 n2, unfolded r, folded s' [unfolded r]]
    note mu = handle_moving_near_unselected [OF r(4) n1 n2, unfolded r]
    note fu = handle_flying_near_unselected [OF r(4) n1 n2, unfolded r]
    note ms = handle_moving_near_selected [OF r(4) n1 n2, unfolded r]
    note fs = handle_flying_near_selected [OF r(4) n1 n2, unfolded r]
    have hp: "current_phase g = PLACING \<Longrightarrow>
                handle_action g position = handle_placing rg position"
      and hm: "current_phase g = MOVING \<Longrightarrow>
                handle_action g position = handle_moving rg position"
      and hf: "current_phase g = FLYING \<Longrightarrow>
                handle_action g position = handle_flying rg position"
      by (simp_all add: handle_action_def rg)
    have sc: "player_symbol (current g) = s"
      by (simp add: s current_def)
    show "(current_phase g = PLACING \<and> board g ! nat (position + 24) \<noteq> ''.'' \<longrightarrow>
                handle_action g position = Some (False, rg))
          \<and> (current_phase g = PLACING \<and> board g ! nat (position + 24) = ''.'' \<longrightarrow>
                (\<exists>g'. handle_action g position = Some (True, g')
                   \<and> board g' = (board g)[nat (position + 24) := s]))
          \<and> (current_phase g = MOVING \<and> selected_piece g = None \<longrightarrow>
                handle_action g position =
                  (if board g ! nat (position + 24) = s
                      \<and> (\<exists>a\<in>set (adjacent_arrays ! nat (position + 24)).
                            board g ! nat a = ''.'')
                   then Some (True, rg\<lparr>selected_piece := Some position\<rparr>)
                   else Some (False, rg)))
          \<and> (current_phase g = FLYING \<and> selected_piece g = None \<longrightarrow>
                handle_action g position =
                  (if board g ! nat (position + 24) = s
                   then Some (True, rg\<lparr>selected_piece := Some position\<rparr>)
                   else Some (False, rg)))
          \<and> (\<forall>sel. current_phase g = MOVING \<and> selected_piece g = Some sel
                \<and> sel \<noteq> position \<longrightarrow>
                handle_action g position
                  = (case py_getitem (board g) sel of None \<Rightarrow> None
                     | Some c \<Rightarrow> Some (False, rg)))
          \<and> (\<forall>sel. current_phase g = FLYING \<and> selected_piece g = Some sel
                \<and> sel \<noteq> position \<longrightarrow>
                (case py_getitem (board g) sel of
                   None \<Rightarrow> handle_action g position = None
                 | Some c \<Rightarrow>
                     if c = s \<and> board g ! nat (position + 24) = ''.''
                     then (\<exists>g' b1. py_setitem (board g) sel ''.'' = Some b1
                            \<and> handle_action g position = Some (True, g')
                            \<and> board g' = b1[nat (position + 24) := s]
                            \<and> selected_piece g' = None)
                     else handle_action g position = Some (False, rg)))"
    proof (intro conjI impI allI)
      assume "current_phase g = PLACING \<and> board g ! nat (position + 24) \<noteq> ''.''"
      then show "handle_action g position = Some (False, rg)"
        using pl hp by simp
    next
      assume "current_phase g = PLACING \<and> board g ! nat (position + 24) = ''.''"
      then show "\<exists>g'. handle_action g position = Some (True, g')
                   \<and> board g' = (board g)[nat (position + 24) := s]"
        using pl hp by simp
    next
      assume "current_phase g = MOVING \<and> selected_piece g = None"
      then show "handle_action g position =
                  (if board g ! nat (position + 24) = s
                      \<and> (\<exists>a\<in>set (adjacent_arrays ! nat (position + 24)).
                            board g ! nat a = ''.'')
                   then Some (True, rg\<lparr>selected_piece := Some position\<rparr>)
                   else Some (False, rg))"
        using mu hm by (simp add: sc)
    next
      assume "current_phase g = FLYING \<and> selected_piece g = None"
      then show "handle_action g position =
                  (if board g ! nat (position + 24) = s
                   then Some (True, rg\<lparr>selected_piece := Some position\<rparr>)
                   else Some (False, rg))"
        using fu hf by (simp add: sc)
    next
      fix sel
      assume "current_phase g = MOVING \<and> selected_piece g = Some sel \<and> sel \<noteq> position"
      then show "handle_action g position
                  = (case py_getitem (board g) sel of None \<Rightarrow> None
                     | Some c \<Rightarrow> Some (False, rg))"
        using ms [of sel] hm by simp
    next
      fix sel
      assume a: "current_phase g = FLYING \<and> selected_piece g = Some sel \<and> sel \<noteq> position"
      then have eq: "handle_action g position = handle_flying rg position"
        using hf by simp
      from a have sp: "selected_piece g = Some sel" "sel \<noteq> position"
        by simp_all
      note fs' = fs [OF sp, unfolded sc]
      show "case py_getitem (board g) sel of
                   None \<Rightarrow> handle_action g position = None
                 | Some c \<Rightarrow>
                     if c = s \<and> board g ! nat (position + 24) = ''.''
                     then (\<exists>g' b1. py_setitem (board g) sel ''.'' = Some b1
                            \<and> handle_action g position = Some (True, g')
                            \<and> board g' = b1[nat (position + 24) := s]
                            \<and> selected_piece g' = None)
                     else handle_action g position = Some (False, rg)"
        unfolding eq using fs' .
    qed
  qed
  have c1: "current_phase g = GAME_OVER \<longrightarrow> handle_action g position = Some (False, g)"
    using basic by (rule conjunct1)
  have c2: "current_phase g = REMOVING_PIECE \<longrightarrow>
              handle_action g position = Some (False, rg)"
    using basic by (rule conjunct1 [OF conjunct2])
  note c3 = conjunct1 [OF conjunct2 [OF conjunct2 [OF basic]]]
  note c4 = conjunct2 [OF conjunct2 [OF conjunct2 [OF basic]]]
  show ?thesis
  proof (intro conjI)
    show "current_phase g = GAME_OVER \<longrightarrow> handle_action g position = Some (False, g)"
      by (rule c1)
    show "current_phase g = REMOVING_PIECE \<longrightarrow> handle_action g position = Some (False, rg)"
      by (rule c2)
    show "(current_phase g = MOVING \<or> current_phase g = FLYING)
          \<and> selected_piece g = Some position \<longrightarrow>
          handle_action g position = Some (True, rg\<lparr>selected_piece := None\<rparr>)"
      by (rule same)
  next
    show "position < - 24 \<or> 23 < position \<longrightarrow>
          is_position_empty (board g) position = None
          \<and> who_on_position (board g) position = None
          \<and> add_player_piece (board g) position v = None
          \<and> remove_player_piece (board g) position = None
          \<and> (current_phase g = PLACING \<longrightarrow> handle_action g position = None)
          \<and> ((current_phase g = MOVING \<or> current_phase g = FLYING)
                \<and> selected_piece g = None \<longrightarrow> handle_action g position = None)
          \<and> (\<forall>sel. (current_phase g = MOVING \<or> current_phase g = FLYING)
                \<and> selected_piece g = Some sel \<and> sel \<noteq> position \<longrightarrow>
                handle_action g position
                  = (case py_getitem (board g) sel of None \<Rightarrow> None
                     | Some c \<Rightarrow> if c = s then None else Some (False, rg)))"
    proof
      assume f: "position < - 24 \<or> 23 < position"
      note a = mp [OF c3 f] and b = mp [OF far f]
      show "is_position_empty (board g) position = None
          \<and> who_on_position (board g) position = None
          \<and> add_player_piece (board g) position v = None
          \<and> remove_player_piece (board g) position = None
          \<and> (current_phase g = PLACING \<longrightarrow> handle_action g position = None)
          \<and> ((current_phase g = MOVING \<or> current_phase g = FLYING)
                \<and> selected_piece g = None \<longrightarrow> handle_action g position = None)
          \<and> (\<forall>sel. (current_phase g = MOVING \<or> current_phase g = FLYING)
                \<and> selected_piece g = Some sel \<and> sel \<noteq> position \<longrightarrow>
                handle_action g position
                  = (case py_getitem (board g) sel of None \<Rightarrow> None
                     | Some c \<Rightarrow> if c = s then None else Some (False, rg)))"
        by (intro conjI a [THEN conjunct1] a [THEN conjunct2, THEN conjunct1]
              a [THEN conjunct2, THEN conjunct2, THEN conjunct1]
              a [THEN conjunct2, THEN conjunct2, THEN conjunct2, THEN conjunct1]
              a [THEN conjunct2, THEN conjunct2, THEN conjunct2, THEN conjunct2, THEN conjunct1]
              a [THEN conjunct2, THEN conjunct2, THEN conjunct2, THEN conjunct2, THEN conjunct2]
              b)
    qed
  next
    show "- 24 \<le> position \<and> position < 0 \<longrightarrow>
          is_position_empty (board g) position = is_position_empty (board g) (position + 24)
          \<and> who_on_position (board g) position = who_on_position (board g) (position + 24)
          \<and> add_player_piece (board g) position v
              = add_player_piece (board g) (position + 24) v
          \<and> remove_player_piece (board g) position
              = remove_player_piece (board g) (position + 24)
          \<and> (current_phase g = PLACING \<and> board g ! nat (position + 24) \<noteq> ''.'' \<longrightarrow>
                handle_action g position = Some (False, rg))
          \<and> (current_phase g = PLACING \<and> board g ! nat (position + 24) = ''.'' \<longrightarrow>
                (\<exists>g'. handle_action g position = Some (True, g')
                   \<and> board g' = (board g)[nat (position + 24) := s]))
          \<and> (current_phase g = MOVING \<and> selected_piece g = None \<longrightarrow>
                handle_action g position =
                  (if board g ! nat (position + 24) = s
                      \<and> (\<exists>a\<in>set (adjacent_arrays ! nat (position + 24)).
                            board g ! nat a = ''.'')
                   then Some (True, rg\<lparr>selected_piece := Some position\<rparr>)
                   else Some (False, rg)))
          \<and> (current_phase g = FLYING \<and> selected_piece g = None \<longrightarrow>
                handle_action g position =
                  (if board g ! nat (position + 24) = s
                   then Some (True, rg\<lparr>selected_piece := Some position\<rparr>)
                   else Some (False, rg)))
          \<and> (\<forall>sel. current_phase g = MOVING \<and> selected_piece g = Some sel
                \<and> sel \<noteq> position \<longrightarrow>
                handle_action g position
                  = (case py_getitem (board g) sel of None \<Rightarrow> None
                     | Some c \<Rightarrow> Some (False, rg)))
          \<and> (\<forall>sel. current_phase g = FLYING \<and> selected_piece g = Some sel
                \<and> sel \<noteq> position \<longrightarrow>
                (case py_getitem (board g) sel of
                   None \<Rightarrow> handle_action g position = None
                 | Some c \<Rightarrow>
                     if c = s \<and> board g ! nat (position + 24) = ''.''
                     then (\<exists>g' b1. py_setitem (board g) sel ''.'' = Some b1
                            \<and> handle_action g position = Some (True, g')
                            \<and> board g' = b1[nat (position + 24) := s]
                            \<and> selected_piece g' = None)
                     else handle_action g position = Some (False, rg)))"
    proof
      assume n: "- 24 \<le> position \<and> position < 0"
      note a = mp [OF c4 n] and b = mp [OF near n]
      show "is_position_empty (board g) position = is_position_empty (board g) (position + 24)
          \<and> who_on_position (board g) position = who_on_position (board g) (position + 24)
          \<and> add_player_piece (board g) position v
              = add_player_piece (board g) (position + 24) v
          \<and> remove_player_piece (board g) position
              = remove_player_piece (board g) (position + 24)
          \<and> (current_phase g = PLACING \<and> board g ! nat (position + 24) \<noteq> ''.'' \<longrightarrow>
                handle_action g position = Some (False, rg))
          \<and> (current_phase g = PLACING \<and> board g ! nat (position + 24) = ''.'' \<longrightarrow>
                (\<exists>g'. handle_action g position = Some (True, g')
                   \<and> board g' = (board g)[nat (position + 24) := s]))
          \<and> (current_phase g = MOVING \<and> selected_piece g = None \<longrightarrow>
                handle_action g position =
                  (if board g ! nat (position + 24) = s
                      \<and> (\<exists>a\<in>set (adjacent_arrays ! nat (position + 24)).
                            board g ! nat a = ''.'')
                   then Some (True, rg\<lparr>selected_piece := Some position\<rparr>)
                   else Some (False, rg)))
          \<and> (current_phase g = FLYING \<and> selected_piece g = None \<longrightarrow>
                handle_action g position =
                  (if board g ! nat (position + 24) = s
                   then Some (True, rg\<lparr>selected_piece := Some position\<rparr>)
                   else Some (False, rg)))
          \<and> (\<forall>sel. current_phase g = MOVING \<and> selected_piece g = Some sel
                \<and> sel \<noteq> position \<longrightarrow>
                handle_action g position
                  = (case py_getitem (board g) sel of None \<Rightarrow> None
                     | Some c \<Rightarrow> Some (False, rg)))
          \<and> (\<forall>sel. current_phase g = FLYING \<and> selected_piece g = Some sel
                \<and> sel \<noteq> position \<longrightarrow>
                (case py_getitem (board g) sel of
                   None \<Rightarrow> handle_action g position = None
                 | Some c \<Rightarrow>
                     if c = s \<and> board g ! nat (position + 24) = ''.''
                     then (\<exists>g' b1. py_setitem (board g) sel ''.'' = Some b1
                            \<and> handle_action g position = Some (True, g')
                            \<and> board g' = b1[nat (position + 24) := s]
                            \<and> selected_piece g' = None)
                     else handle_action g position = Some (False, rg)))"
        by (intro conjI a [THEN conjunct1] a [THEN conjunct2, THEN conjunct1]
              a [THEN conjunct2, THEN conjunct2, THEN conjunct1]
              a [THEN conjunct2, THEN conjunct2, THEN conjunct2]
              b [THEN conjunct1] b [THEN conjunct2, THEN conjunct1]
              b [THEN conjunct2, THEN conjunct2, THEN conjunct1]
              b [THEN conjunct2, THEN conjunct2, THEN conjunct2, THEN conjunct1]
              b [THEN conjunct2, THEN conjunct2, THEN conjunct2, THEN conjunct2, THEN conjunct1]
              b [THEN conjunct2, THEN conjunct2, THEN conjunct2, THEN conjunct2, THEN conjunct2])
    qed
  qed
qed

theorem out_of_range_position_witness:
  "handle_action (protected_game\<lparr>current_phase := GAME_OVER\<rparr>) 24
      = Some (False, protected_game\<lparr>current_phase := GAME_OVER\<rparr>)
   \<and> handle_action protected_game 24 = Some (False, record_game_action protected_game 24)
   \<and> handle_action protected_game (- 1)
       = Some (False, record_game_action protected_game (- 1))
   \<and> is_position_empty (board (new_game player_X player_O)) 24 = None
   \<and> handle_action (new_game player_X player_O) 24 = None
   \<and> (\<exists>g'. handle_action (new_game player_X player_O) (- 1) = Some (True, g')
          \<and> board g' = make_new_board[23 := ''X''])
   \<and> handle_action first_placement (- 24)
       = Some (False, record_game_action first_placement (- 24))
   \<and> handle_action midgame 24 = None
   \<and> handle_action midgame (- 1)
       = Some (True, (record_game_action midgame (- 1))\<lparr>selected_piece := Some (- 1)\<rparr>)
   \<and> handle_action (midgame\<lparr>selected_piece := Some (- 1)\<rparr>) (- 1)
       = Some (True, (record_game_action (midgame\<lparr>selected_piece := Some (- 1)\<rparr>) (- 1))
                        \<lparr>selected_piece := None\<rparr>)
   \<and> handle_action midgame_selected (- 2)
       = Some (False, record_game_action midgame_selected (- 2))
   \<and> handle_action midgame_selected 24 = None
   \<and> handle_action midgame_flying (- 24)
       = Some (True, (record_game_action midgame_flying (- 24))\<lparr>selected_piece := Some (- 24)\<rparr>)
   \<and> (\<exists>g'. handle_action (midgame_flying\<lparr>selected_piece := Some 0\<rparr>) (- 2) = Some (True, g')
          \<and> board g' = midgame_board[0 := ''.'', 22 := ''O''] \<and> selected_piece g' = None)"
proof -
  have o24: "(24::int) < 0 \<or> 23 < (24::int)"
    and o1: "(- 1::int) < 0 \<or> 23 < (- 1::int)"
    and o2: "(- 2::int) < 0 \<or> 23 < (- 2::int)"
    and om: "(- 24::int) < 0 \<or> 23 < (- 24::int)"
    by simp_all
  have lp: "length (board protected_game) = 24"
    and lo: "length (board (protected_game\<lparr>current_phase := GAME_OVER\<rparr>)) = 24"
    and ln: "length (board (new_game player_X player_O)) = 24"
    and lf: "length (board first_placement) = 24"
    and lm: "length (board midgame) = 24"
    and lms: "length (board (midgame\<lparr>selected_piece := Some (- 1)\<rparr>)) = 24"
    and ls: "length (board midgame_selected) = 24"
    and ly: "length (board midgame_flying) = 24"
    and lys: "length (board (midgame_flying\<lparr>selected_piece := Some 0\<rparr>)) = 24"
    by (simp_all add: protected_game_def top_mill_board_def new_game_def make_new_board_def
          first_placement_def midgame_def midgame_board_def midgame_selected_def
          midgame_flying_def)
  have c1: "handle_action (protected_game\<lparr>current_phase := GAME_OVER\<rparr>) 24
              = Some (False, protected_game\<lparr>current_phase := GAME_OVER\<rparr>)"
    using out_of_range_position [OF lo o24 refl refl, THEN conjunct1] by simp
  have c2: "handle_action protected_game 24 = Some (False, record_game_action protected_game 24)"
    using out_of_range_position [OF lp o24 refl refl, THEN conjunct2, THEN conjunct1]
    by (simp add: protected_game_def)
  have c3: "handle_action protected_game (- 1)
              = Some (False, record_game_action protected_game (- 1))"
    using out_of_range_position [OF lp o1 refl refl, THEN conjunct2, THEN conjunct1]
    by (simp add: protected_game_def)
  note far = conjunct1 [OF conjunct2 [OF conjunct2 [OF conjunct2]]]
  note near = conjunct2 [OF conjunct2 [OF conjunct2 [OF conjunct2]]]
  note fn = out_of_range_position [OF ln o24 refl refl, THEN far]
  have c4: "is_position_empty (board (new_game player_X player_O)) 24 = None"
    using fn by simp
  have c5: "handle_action (new_game player_X player_O) 24 = None"
    using fn by (simp add: new_game_def)
  have c6: "\<exists>g'. handle_action (new_game player_X player_O) (- 1) = Some (True, g')
          \<and> board g' = make_new_board[23 := ''X'']"
    using out_of_range_position [OF ln o1 refl refl, THEN near]
    by (simp add: new_game_def make_new_board_def player_at_def player_X_def)
  have c7: "handle_action first_placement (- 24)
       = Some (False, record_game_action first_placement (- 24))"
    using out_of_range_position [OF lf om refl refl, THEN near]
    by (simp add: first_placement_def make_new_board_def)
  have c8: "handle_action midgame 24 = None"
    using out_of_range_position [OF lm o24 refl refl, THEN far]
    by (simp add: midgame_def)
  have c9: "handle_action midgame (- 1)
       = Some (True, (record_game_action midgame (- 1))\<lparr>selected_piece := Some (- 1)\<rparr>)"
    using out_of_range_position [OF lm o1 refl refl, THEN near]
    by (simp add: midgame_def midgame_board_def player_at_def player_X_def
          adjacent_arrays_def)
  have c10: "handle_action (midgame\<lparr>selected_piece := Some (- 1)\<rparr>) (- 1)
       = Some (True, (record_game_action (midgame\<lparr>selected_piece := Some (- 1)\<rparr>) (- 1))
                        \<lparr>selected_piece := None\<rparr>)"
    using out_of_range_position [OF lms o1 refl refl, THEN conjunct2, THEN conjunct2,
            THEN conjunct1]
    by (simp add: midgame_def)
  have c11: "handle_action midgame_selected (- 2)
       = Some (False, record_game_action midgame_selected (- 2))"
    using out_of_range_position [OF ls o2 refl refl, THEN near]
    by (simp add: midgame_selected_def midgame_def midgame_board_def
          py_getitem_def py_index_def)
  have c12: "handle_action midgame_selected 24 = None"
    using out_of_range_position [OF ls o24 refl refl, THEN far]
    by (simp add: midgame_selected_def midgame_def midgame_board_def
          py_getitem_def py_index_def player_at_def player_X_def)
  have c13: "handle_action midgame_flying (- 24)
       = Some (True, (record_game_action midgame_flying (- 24))\<lparr>selected_piece := Some (- 24)\<rparr>)"
    using out_of_range_position [OF ly om refl refl, THEN near]
    by (simp add: midgame_flying_def midgame_def midgame_board_def player_at_def
          player_O_def)
  have c14: "\<exists>g'. handle_action (midgame_flying\<lparr>selected_piece := Some 0\<rparr>) (- 2) = Some (True, g')
          \<and> board g' = midgame_board[0 := ''.'', 22 := ''O''] \<and> selected_piece g' = None"
    using out_of_range_position [OF lys o2 refl refl, THEN near]
    by (simp add: midgame_flying_def midgame_def midgame_board_def player_at_def
          player_O_def py_getitem_def py_setitem_def py_index_def)
  show ?thesis
    by (intro conjI c1 c2 c3 c4 c5 c6 c7 c8 c9 c10 c11 c12 c13 c14)
qed

text \<open>
  The claim as stated fails in a new game: position 24 raises \<open>IndexError\<close>, both in
  \<open>is_position_empty\<close> and in \<open>handle_action\<close>, and position \<open>-1\<close> is accepted as a
  placement (on cell 23).
\<close>

theorem out_of_range_raises:
  "is_position_empty (board (new_game player_X player_O)) 24 = None
   \<and> handle_action (new_game player_X player_O) 24 = None
   \<and> map_option fst (handle_action (new_game player_X player_O) (- 1)) = Some True"
  by code_simp

subsection \<open>The end of a turn\<close>


lemma other_ref_simps [simp]:
  "other_ref P1 = P2" "other_ref P2 = P1" "other_ref (other_ref r) = r" "other_ref r \<noteq> r"
  by (cases r; simp add: other_ref_def)+




lemma material_win_for_phase [simp]:
  "material_win_for (g\<lparr>current_phase := ph\<rparr>) a = material_win_for g a"
  "material_win_for (g\<lparr>selected_piece := sp\<rparr>) a = material_win_for g a"
  "material_win_for (g\<lparr>current_player := c\<rparr>) a = material_win_for g a"
  "material_win_for (g\<lparr>board := b\<rparr>) a = material_win_for g a"
  "material_win_for (g\<lparr>game_history := h\<rparr>) a = material_win_for g a"
  by (simp_all add: material_win_for_def)

lemma current_current_player [simp]:
  "current (g\<lparr>current_player := c\<rparr>) = player_at g c"
  by (simp add: current_def)



















lemma midgame_select: "handle_action midgame 19 = Some (True, midgame_selected)"
  by code_simp


lemma stale_game_reached:
  "then_action (then_undo (then_undo
     (then_action (then_action (then_action (Some midgame) 19) 22) 17))) 19
   = Some stale_game"
  by code_simp


text \<open>
  The range of the position matters: a placement on \<open>-22\<close> writes cell 2, and after the
  placements 0, 3, 1, 4 it closes the top line for X, but \<open>is_position_part_of_mill\<close>
  looks for \<open>-22\<close> in the mill triples, finds none, and the turn passes to O.
\<close>

lemma mill_unseen_at_negative_position:
  "map_option board (play (Some (new_game player_X player_O)) [0, 3, 1, 4, - 22])
     = Some top_mill_board
   \<and> in_completed_mill top_mill_board ''X'' 2
   \<and> map_option current_player (play (Some (new_game player_X player_O)) [0, 3, 1, 4, - 22])
     = Some P2
   \<and> map_option current_phase (play (Some (new_game player_X player_O)) [0, 3, 1, 4, - 22])
     = Some PLACING"
  by code_simp


text \<open>
  Such a state is also reached from a new game by calls of \<open>handle_action\<close> and
  \<open>undo_action\<close> alone: after \<open>stale_placing_calls\<close> X is to place with both hands
  empty and the counter of O at 2, and the placement on 2, which closes the top line,
  ends in GameOver.
\<close>

lemma stale_placing_reached:
  "map_option board (calls (Some (new_game player_X player_O)) stale_placing_calls)
     = Some (top_mill_board[2 := ''.''])
   \<and> map_option current_phase (calls (Some (new_game player_X player_O)) stale_placing_calls)
     = Some PLACING
   \<and> map_option current_player (calls (Some (new_game player_X player_O)) stale_placing_calls)
     = Some P1
   \<and> map_option current_phase
        (calls (Some (new_game player_X player_O)) (stale_placing_calls @ [Action 2]))
     = Some GAME_OVER
   \<and> map_option board
        (calls (Some (new_game player_X player_O)) (stale_placing_calls @ [Action 2]))
     = Some top_mill_board
   \<and> is_position_part_of_mill top_mill_board 2 = Some True"
  by code_simp

subsection \<open>Counting cells\<close>

lemma count_list_update:
  "k < length xs \<Longrightarrow>
     int (count_list (xs[k := v]) x)
       = int (count_list xs x) - (if xs ! k = x then 1 else 0) + (if v = x then 1 else 0)"
proof (induction xs arbitrary: k)
  case Nil
  then show ?case by simp
next
  case (Cons y ys)
  show ?case
  proof (cases k)
    case 0
    then show ?thesis by simp
  next
    case (Suc n)
    with Cons.prems have "n < length ys" by simp
    from Cons.IH [OF this] Suc show ?thesis by (auto split: if_splits)
  qed
qed

lemma occupied_cells_count:
  assumes "a \<noteq> b" "a \<noteq> ''.''" "b \<noteq> ''.''"
  shows "set xs \<subseteq> {''.'', a, b} \<Longrightarrow>
         occupied_cells xs = count_list xs a + count_list xs b"
  using assms by (induction xs) (auto simp: occupied_cells_def)

lemma board_inv_counters: "board_inv g \<Longrightarrow> counters_match g"
  using occupied_cells_count [of "player_symbol (player1 g)" "player_symbol (player2 g)" "board g"]
  by (simp add: board_inv_def counters_match_def)

lemma set_update_subset: "set (xs[k := v]) \<subseteq> insert v (set xs)"
  by (rule set_update_subset_insert)

subsection \<open>What a successful board operation writes\<close>

lemma add_player_piece_effect:
  assumes "add_player_piece b p s = Some (True, b')"
  shows "\<exists>k<length b. b ! k = ''.'' \<and> b' = b[k := s]"
  using assms
  by (auto simp: add_player_piece_def is_position_empty_def py_getitem_def py_setitem_def
           split: Option.bind_splits if_splits dest: py_index_less)

lemma remove_player_piece_effect:
  assumes "remove_player_piece b p = Some (True, b')"
  shows "\<exists>k<length b. py_getitem b p = Some (b ! k) \<and> b ! k \<noteq> ''.'' \<and> b' = b[k := ''.'']"
  using assms
  by (auto simp: remove_player_piece_def is_position_empty_def py_getitem_def py_setitem_def
           split: Option.bind_splits if_splits dest: py_index_less)

lemma fly_player_piece_effect:
  assumes "fly_player_piece b f t s = Some (True, b')"
  shows "\<exists>k1<length b. \<exists>k2<length b. b ! k1 = s \<and> b ! k2 = ''.''
           \<and> b' = b[k1 := ''.'', k2 := s]"
proof -
  from assms obtain k1 k2 where k: "py_index (length b) f = Some k1"
      "py_index (length b) t = Some k2"
    and c: "b ! k1 = s" "b ! k2 = ''.''" "b' = b[k1 := ''.'', k2 := s]"
    by (auto simp: fly_player_piece_def is_position_empty_def py_getitem_def py_setitem_def
             split: Option.bind_splits if_splits)
  have "k1 < length b" "k2 < length b"
    using k by (auto dest: py_index_less)
  with c show ?thesis
    by (intro exI [of _ k1] exI [of _ k2] conjI)
qed

lemma move_player_piece_effect:
  assumes "move_player_piece b f t s = Some (True, b')"
  shows "\<exists>k1<length b. \<exists>k2<length b. b ! k1 = s \<and> b ! k2 = ''.''
           \<and> b' = b[k1 := ''.'', k2 := s]"
proof -
  from assms obtain k1 k2 where k: "py_index (length b) f = Some k1"
      "py_index (length b) t = Some k2"
    and c: "b ! k1 = s" "b ! k2 = ''.''" "b' = b[k1 := ''.'', k2 := s]"
    by (auto simp: move_player_piece_def is_position_empty_def py_getitem_def py_setitem_def
             split: Option.bind_splits if_splits)
  have "k1 < length b" "k2 < length b"
    using k by (auto dest: py_index_less)
  with c show ?thesis
    by (intro exI [of _ k1] exI [of _ k2] conjI)
qed

subsection \<open>The invariant is kept by every action\<close>

lemma count_list_pos: "k < length xs \<Longrightarrow> 0 < count_list xs (xs ! k)"
  by (rule ccontr) (simp add: count_list_0_iff)

lemma count_list_move:
  assumes "k1 < length b" "k2 < length b" "b ! k2 = ''.''" "x \<noteq> ''.''"
  shows "count_list (b[k1 := ''.'', k2 := b ! k1]) x = count_list b x"
proof -
  have "int (count_list (b[k1 := ''.'', k2 := b ! k1]) x) = int (count_list b x)"
    using assms by (auto simp: count_list_update nth_list_update)
  then show ?thesis by simp
qed

lemma board_inv_cong:
  "board g' = board g \<Longrightarrow> player1 g' = player1 g \<Longrightarrow> player2 g' = player2 g \<Longrightarrow>
     board_inv g' = board_inv g"
  by (simp add: board_inv_def)

lemma board_inv_place:
  assumes inv: "board_inv g" and hand: "0 < pieces_in_hand (current g)"
    and k: "k < length (board g)" "board g ! k = ''.''"
  shows "board_inv (set_player_at (g\<lparr>board := (board g)[k := player_symbol (current g)]\<rparr>)
           (current_player g) (snd (place_piece (current g))))"
proof (cases "current_player g")
  case P1
  then show ?thesis
    using inv hand k set_update_subset [of "board g" k "player_symbol (player1 g)"]
    by (auto simp: board_inv_def set_player_at_def current_def player_at_def place_piece_def
                   count_list_update)
next
  case P2
  then show ?thesis
    using inv hand k set_update_subset [of "board g" k "player_symbol (player2 g)"]
    by (auto simp: board_inv_def set_player_at_def current_def player_at_def place_piece_def
                   count_list_update)
qed

lemma board_inv_move:
  assumes inv: "board_inv g"
    and k: "k1 < length (board g)" "k2 < length (board g)" "board g ! k2 = ''.''"
  shows "board_inv (g\<lparr>board := (board g)[k1 := ''.'', k2 := board g ! k1]\<rparr>)"
proof -
  let ?b = "(board g)[k1 := ''.'', k2 := board g ! k1]"
  have "set ?b \<subseteq> insert (board g ! k1) (insert ''.'' (set (board g)))"
    using set_update_subset [of "(board g)[k1 := ''.'']" k2 "board g ! k1"]
          set_update_subset [of "board g" k1 "''.''"] by blast
  moreover have "board g ! k1 \<in> set (board g)"
    using k(1) by simp
  ultimately have sub: "set ?b \<subseteq> insert ''.'' (set (board g))"
    by blast
  show ?thesis
    using inv sub k by (auto simp: board_inv_def count_list_move)
qed

lemma board_inv_remove:
  assumes inv: "board_inv g"
    and k: "k < length (board g)" "board g ! k = player_symbol (opponent_player g)"
  shows "board_inv (set_player_at (g\<lparr>board := (board g)[k := ''.'']\<rparr>)
           (other_ref (current_player g))
           (snd (remove_piece (player_at g (other_ref (current_player g))))))"
proof -
  have pos: "0 < count_list (board g) (player_symbol (opponent_player g))"
    using count_list_pos [OF k(1)] k(2) by simp
  show ?thesis
  proof (cases "current_player g")
    case P1
    then show ?thesis
      using inv k pos set_update_subset [of "board g" k "''.''"]
      by (auto simp: board_inv_def set_player_at_def opponent_player_def player_at_def
                     remove_piece_def count_list_update)
  next
    case P2
    then show ?thesis
      using inv k pos set_update_subset [of "board g" k "''.''"]
      by (auto simp: board_inv_def set_player_at_def opponent_player_def player_at_def
                     remove_piece_def count_list_update)
  qed
qed

lemma finalize_turn_placing:
  "finalize_turn g p = Some g' \<Longrightarrow> current_phase g' = PLACING \<Longrightarrow>
     0 < pieces_in_hand (current g')"
  by (auto simp: finalize_turn_def update_game_phase_def switch_player_def current_def
           split: Option.bind_splits if_splits)

lemma finalize_turn_game_inv:
  assumes "finalize_turn g p = Some g'" "board_inv g"
  shows "game_inv g'"
proof -
  have "board_inv g'"
    using finalize_turn_fields [OF assms(1)] assms(2) board_inv_cong [of g' g] by simp
  then show ?thesis
    using finalize_turn_placing [OF assms(1)] by (simp add: game_inv_def)
qed

lemma board_inv_update [simp]:
  "board_inv (g\<lparr>selected_piece := sp\<rparr>) = board_inv g"
  "board_inv (g\<lparr>game_history := h\<rparr>) = board_inv g"
  "board_inv (g\<lparr>current_phase := ph\<rparr>) = board_inv g"
  "board_inv (g\<lparr>current_player := c\<rparr>) = board_inv g"
  by (simp_all add: board_inv_def)

lemma game_inv_update [simp]:
  "game_inv (g\<lparr>selected_piece := sp\<rparr>) = game_inv g"
  "game_inv (g\<lparr>game_history := h\<rparr>) = game_inv g"
  by (simp_all add: game_inv_def)

lemma handle_placing_game_inv:
  assumes inv: "board_inv g" and hand: "0 < pieces_in_hand (current g)"
    and hp: "handle_placing g position = Some (True, g')"
  shows "game_inv g'"
proof -
  from hp obtain b' where add: "add_player_piece (board g) position (player_symbol (current g))
                                 = Some (True, b')"
    and f: "finalize_turn (set_player_at (g\<lparr>board := b'\<rparr>) (current_player g)
               (snd (place_piece (current g)))) position = Some g'"
    by (auto simp: handle_placing_def Let_def split: Option.bind_splits if_splits)
  from add_player_piece_effect [OF add] obtain k where
    k: "k < length (board g)" "board g ! k = ''.''"
    and b': "b' = (board g)[k := player_symbol (current g)]"
    by blast
  show ?thesis
    using finalize_turn_game_inv [OF f] board_inv_place [OF inv hand k] unfolding b' .
qed

lemma handle_moving_game_inv:
  assumes inv: "game_inv g" and ph: "current_phase g \<noteq> PLACING"
    and hm: "handle_moving g position = Some (ok, g')"
  shows "game_inv g'"
proof (cases "\<exists>b' g1. move_player_piece (board g) (the (selected_piece g)) position
                (player_symbol (current g)) = Some (True, b')
              \<and> finalize_turn (g\<lparr>board := b'\<rparr>) position = Some g1
              \<and> g' = g1\<lparr>selected_piece := None\<rparr>")
  case True
  then obtain b' g1 where mv: "move_player_piece (board g) (the (selected_piece g)) position
                (player_symbol (current g)) = Some (True, b')"
    and f: "finalize_turn (g\<lparr>board := b'\<rparr>) position = Some g1"
    and g': "g' = g1\<lparr>selected_piece := None\<rparr>"
    by blast
  from move_player_piece_effect [OF mv] obtain k1 k2 where
    k: "k1 < length (board g)" "k2 < length (board g)" "board g ! k2 = ''.''"
    and s: "board g ! k1 = player_symbol (current g)"
    and b': "b' = (board g)[k1 := ''.'', k2 := player_symbol (current g)]"
    by blast
  have "board_inv (g\<lparr>board := b'\<rparr>)"
    using board_inv_move [OF _ k] inv unfolding b' s by (simp add: game_inv_def)
  then show ?thesis
    using finalize_turn_game_inv [OF f] unfolding g' by simp
next
  case False
  with hm have "g' = g \<or> (\<exists>sp. g' = g\<lparr>selected_piece := sp\<rparr>)"
    by (auto simp: handle_moving_def
             split: option.splits Option.bind_splits if_splits prod.splits)
  then show ?thesis
    using inv by auto
qed

lemma handle_flying_game_inv:
  assumes inv: "game_inv g" and ph: "current_phase g \<noteq> PLACING"
    and hm: "handle_flying g position = Some (ok, g')"
  shows "game_inv g'"
proof (cases "\<exists>b' g1. fly_player_piece (board g) (the (selected_piece g)) position
                (player_symbol (current g)) = Some (True, b')
              \<and> finalize_turn (g\<lparr>board := b'\<rparr>) position = Some g1
              \<and> g' = g1\<lparr>selected_piece := None\<rparr>")
  case True
  then obtain b' g1 where mv: "fly_player_piece (board g) (the (selected_piece g)) position
                (player_symbol (current g)) = Some (True, b')"
    and f: "finalize_turn (g\<lparr>board := b'\<rparr>) position = Some g1"
    and g': "g' = g1\<lparr>selected_piece := None\<rparr>"
    by blast
  from fly_player_piece_effect [OF mv] obtain k1 k2 where
    k: "k1 < length (board g)" "k2 < length (board g)" "board g ! k2 = ''.''"
    and s: "board g ! k1 = player_symbol (current g)"
    and b': "b' = (board g)[k1 := ''.'', k2 := player_symbol (current g)]"
    by blast
  have "board_inv (g\<lparr>board := b'\<rparr>)"
    using board_inv_move [OF _ k] inv unfolding b' s by (simp add: game_inv_def)
  then show ?thesis
    using finalize_turn_game_inv [OF f] unfolding g' by simp
next
  case False
  with hm have "g' = g \<or> (\<exists>sp. g' = g\<lparr>selected_piece := sp\<rparr>)"
    by (auto simp: handle_flying_def
             split: option.splits Option.bind_splits if_splits prod.splits)
  then show ?thesis
    using inv by auto
qed

lemma get_allowed_removals_subset:
  "get_allowed_removals g = Some r \<Longrightarrow>
     set r \<subseteq> set (get_players_positions (board g) (player_symbol (opponent_player g)))"
  by (auto simp: get_allowed_removals_def Let_def split: Option.bind_splits if_splits
           dest: non_mill_among_subset)

lemma handle_removing_piece_game_inv:
  assumes inv: "game_inv g" and ph: "current_phase g \<noteq> PLACING"
    and hr: "handle_removing_piece g position = Some (ok, g')"
  shows "game_inv g'"
proof (cases ok)
  case False
  with hr have "g' = g" by (simp add: handle_removing_piece_False)
  with inv show ?thesis by simp
next
  case True
  let ?o = "other_ref (current_player g)"
  from hr True obtain r b' where r: "get_allowed_removals g = Some r" "position \<in> set r"
    and rm: "remove_player_piece (board g) position = Some (True, b')"
    and f: "finalize_turn (set_player_at (g\<lparr>board := b'\<rparr>) ?o
               (snd (remove_piece (player_at g ?o)))) position = Some g'"
    by (auto simp: handle_removing_piece_def Let_def split: Option.bind_splits if_splits)
  have binv: "board_inv g"
    using inv by (simp add: game_inv_def)
  have "position \<in> set (get_players_positions (board g) (player_symbol (opponent_player g)))"
    using get_allowed_removals_subset [OF r(1)] r(2) by blast
  then have p: "0 \<le> position" "position < int (length (board g))"
    "board g ! nat position = player_symbol (opponent_player g)"
    by (auto dest: get_players_positions_D)
  from remove_player_piece_effect [OF rm] obtain k where
    k: "k < length (board g)" "py_getitem (board g) position = Some (board g ! k)"
    and b': "b' = (board g)[k := ''.'']"
    by blast
  have "board g ! k = player_symbol (opponent_player g)"
    using k(2) p by (simp add: py_getitem_in_range)
  then have "board_inv (set_player_at (g\<lparr>board := b'\<rparr>) ?o
               (snd (remove_piece (player_at g ?o))))"
    unfolding b' using board_inv_remove [OF binv k(1)] by simp
  then show ?thesis
    using finalize_turn_game_inv [OF f] by simp
qed

lemma handle_action_game_inv:
  assumes inv: "game_inv g" and ha: "handle_action g position = Some (ok, g')"
  shows "game_inv g'"
proof (cases "current_phase g")
  case PLACING
  let ?r = "record_game_action g position"
  have hp: "handle_placing ?r position = Some (ok, g')"
    using ha PLACING by (simp add: handle_action_def)
  show ?thesis
  proof (cases ok)
    case True
    have "board_inv ?r" "0 < pieces_in_hand (current ?r)"
      using inv PLACING by (simp_all add: game_inv_def record_game_action_def)
    then show ?thesis
      using hp True by (intro handle_placing_game_inv [of ?r position g']) simp_all
  next
    case False
    with hp have "g' = ?r" by (simp add: handle_placing_False)
    then show ?thesis using inv by (simp add: record_game_action_def)
  qed
next
  case MOVING
  then have "handle_moving (record_game_action g position) position = Some (ok, g')"
    using ha by (simp add: handle_action_def)
  then show ?thesis
    using inv MOVING
    by (intro handle_moving_game_inv [of "record_game_action g position" position ok g'])
       (simp_all add: record_game_action_def)
next
  case FLYING
  then have "handle_flying (record_game_action g position) position = Some (ok, g')"
    using ha by (simp add: handle_action_def)
  then show ?thesis
    using inv FLYING
    by (intro handle_flying_game_inv [of "record_game_action g position" position ok g'])
       (simp_all add: record_game_action_def)
next
  case REMOVING_PIECE
  then have "handle_removing_piece (record_game_action g position) position = Some (ok, g')"
    using ha by (simp add: handle_action_def)
  then show ?thesis
    using inv REMOVING_PIECE
    by (intro handle_removing_piece_game_inv
                [of "record_game_action g position" position ok g'])
       (simp_all add: record_game_action_def)
next
  case GAME_OVER
  with ha inv show ?thesis by (simp add: handle_action_def)
qed

lemma game_inv_new_game:
  assumes "player_symbol p1 \<noteq> player_symbol p2"
    "player_symbol p1 \<noteq> ''.''" "player_symbol p2 \<noteq> ''.''"
  shows "game_inv (new_game p1 p2)"
proof -
  have "count_list make_new_board s = 0" if "s \<noteq> ''.''" for s
    using that by (simp add: count_list_0_iff make_new_board_def)
  then show ?thesis
    using assms
    by (simp add: game_inv_def board_inv_def new_game_def current_def player_at_def)
       (simp add: make_new_board_def)
qed

lemma play_None [simp]: "play None positions = None"
  by (induction positions) (simp_all add: then_action_def)

lemma play_game_inv:
  "game_inv g \<Longrightarrow> play (Some g) positions = Some g' \<Longrightarrow> game_inv g'"
proof (induction positions arbitrary: g)
  case Nil
  then show ?case by simp
next
  case (Cons p ps)
  show ?case
  proof (cases "handle_action g p")
    case None
    with Cons.prems show ?thesis by (simp add: then_action_def)
  next
    case (Some r)
    then have ha: "handle_action g p = Some (fst r, snd r)" by simp
    have "game_inv (snd r)"
      using handle_action_game_inv [OF Cons.prems(1) ha] .
    moreover have "play (Some (snd r)) ps = Some g'"
      using Cons.prems(2) Some by (simp add: then_action_def split: prod.splits)
    ultimately show ?thesis by (rule Cons.IH)
  qed
qed

text \<open>
  C4, as amended. The number of occupied cells equals the sum of both players'
  \<open>pieces_on_board\<close> in a new game and in every state reached from a new game by a
  sequence of \<open>handle_action\<close> calls, in every phase, for two players whose symbols
  differ from each other and from the empty mark.
\<close>

theorem counters_match_in_play:
  assumes "player_symbol p1 \<noteq> player_symbol p2"
    and "player_symbol p1 \<noteq> ''.''" and "player_symbol p2 \<noteq> ''.''"
    and "play (Some (new_game p1 p2)) positions = Some g"
  shows "counters_match (new_game p1 p2) \<and> counters_match g"
proof -
  have i: "game_inv (new_game p1 p2)"
    using assms(1-3) by (rule game_inv_new_game)
  then have "game_inv g"
    using assms(4) by (rule play_game_inv)
  with i show ?thesis
    by (simp add: game_inv_def board_inv_counters)
qed

theorem counters_match_in_play_witness:
  "player_symbol player_X \<noteq> player_symbol player_O
   \<and> player_symbol player_X \<noteq> ''.'' \<and> player_symbol player_O \<noteq> ''.''
   \<and> play (Some (new_game player_X player_O)) [0, 3, 1, 4, 2, 3] = Some six_actions
   \<and> counters_match (new_game player_X player_O)
   \<and> counters_match six_actions
   \<and> occupied_cells (board six_actions) = 4
   \<and> pieces_on_board (player1 six_actions) = 3
   \<and> pieces_on_board (player2 six_actions) = 1"
proof -
  have s: "player_symbol player_X \<noteq> player_symbol player_O"
    "player_symbol player_X \<noteq> ''.''" "player_symbol player_O \<noteq> ''.''"
    by (simp_all add: player_X_def player_O_def)
  have p: "play (Some (new_game player_X player_O)) [0, 3, 1, 4, 2, 3] = Some six_actions"
    by code_simp
  have v: "occupied_cells (board six_actions) = 4"
    "pieces_on_board (player1 six_actions) = 3"
    "pieces_on_board (player2 six_actions) = 1"
    by code_simp+
  show ?thesis
    using s p v counters_match_in_play [OF s p] by (intro conjI) simp_all
qed

text \<open>
  The claim as stated fails for \<open>undo_action\<close>: after X's first placement the invariant
  holds, and undoing it empties the board while the counter of X stays 1.
\<close>

theorem undo_breaks_counters:
  "handle_action (new_game player_X player_O) 0 = Some (True, first_placement)
   \<and> counters_match first_placement
   \<and> fst (undo_action first_placement) = True
   \<and> board (snd (undo_action first_placement)) = make_new_board
   \<and> occupied_cells (board (snd (undo_action first_placement))) = 0
   \<and> pieces_on_board (player1 (snd (undo_action first_placement))) = 1
   \<and> pieces_on_board (player2 (snd (undo_action first_placement))) = 0
   \<and> \<not> counters_match (snd (undo_action first_placement))"
  by code_simp

subsection \<open>Undo\<close>

lemma undo_action_empty: "game_history g = [] \<Longrightarrow> undo_action g = (False, g)"
  by (simp add: undo_action_def)

lemma undo_action_snoc:
  "game_history g = h @ [(b, c, ph, pos)] \<Longrightarrow>
     undo_action g = (True, g\<lparr>game_history := h, board := b, current_player := c,
                               current_phase := ph\<rparr>)"
  by (simp add: undo_action_def Let_def)

lemma undo_action_heap_snoc:
  "h_game_history s = h @ [(a, c, ph, pos)] \<Longrightarrow>
     undo_action_heap s =
       (True, s\<lparr>h_game_history := h, h_heap := h_heap s @ [h_heap s ! a],
                 h_board := length (h_heap s), h_current_player := c,
                 h_current_phase := ph\<rparr>)"
  by (simp add: undo_action_heap_def Let_def list_copy_def)

lemma undo_action_heap_refines:
  assumes wf: "heap_wf s"
  shows "undo_action (game_of s) = (fst (undo_action_heap s), game_of (snd (undo_action_heap s)))"
proof (cases "h_game_history s" rule: rev_cases)
  case Nil
  then show ?thesis
    by (simp add: undo_action_def undo_action_heap_def game_of_def)
next
  case (snoc h e)
  obtain a c ph pos where e: "e = (a, c, ph, pos)"
    by (cases e) auto
  have old: "\<forall>x\<in>set h. fst x < length (h_heap s)" and a: "a < length (h_heap s)"
    using wf snoc e by (auto simp: heap_wf_def list_all_iff)
  have m: "map (\<lambda>x. ((h_heap s @ [h_heap s ! a]) ! fst x, snd x)) h
             = map (\<lambda>x. (h_heap s ! fst x, snd x)) h"
    using old by (auto simp: nth_append)
  have "game_history (game_of s) = map (\<lambda>x. (h_heap s ! fst x, snd x)) h
                                      @ [(h_heap s ! a, c, ph, pos)]"
    using snoc e by (simp add: game_of_def)
  from undo_action_snoc [OF this] show ?thesis
    unfolding undo_action_heap_snoc [OF snoc [unfolded e]]
    by (simp add: game_of_def m)
qed


lemma record_game_action_heap_refines:
  assumes wf: "heap_wf s"
  shows "heap_wf (record_game_action_heap s position)
    \<and> game_of (record_game_action_heap s position) = record_game_action (game_of s) position"
proof -
  have old: "\<forall>x\<in>set (h_game_history s). fst x < length (h_heap s) \<and> fst x \<noteq> h_board s"
    and b: "h_board s < length (h_heap s)"
    using wf by (auto simp: heap_wf_def list_all_iff)
  have m: "map (\<lambda>x. ((h_heap s @ [h_heap s ! h_board s]) ! fst x, snd x)) (h_game_history s)
             = map (\<lambda>x. (h_heap s ! fst x, snd x)) (h_game_history s)"
    using old by (auto simp: nth_append)
  show ?thesis
    using old b
    by (auto simp: record_game_action_heap_def list_copy_def heap_wf_def list_all_iff
                   game_of_def record_game_action_def nth_append m)
qed

text \<open>A write to the live board changes no logged board.\<close>

lemma board_setitem_heap_log:
  assumes wf: "heap_wf s"
  shows "heap_wf (board_setitem_heap s k v)
    \<and> game_history (game_of (board_setitem_heap s k v)) = game_history (game_of s)
    \<and> board (game_of (board_setitem_heap s k v)) = (board (game_of s))[k := v]"
  using wf
  by (auto simp: board_setitem_heap_def heap_wf_def list_all_iff game_of_def)

text \<open>
  C9. \<open>undo_action\<close> on an empty session log returns False and leaves the whole game
  state unchanged. On a log whose last entry is \<open>(b, c, ph, pos)\<close> it returns True,
  removes that entry, and sets the board to \<open>b\<close>, the current player to \<open>c\<close> and the
  phase to \<open>ph\<close>; everything else is as before. In the model with list objects, the
  restored board is a new object holding the contents of the snapshot: its address is
  not the snapshot's, not that of any object that existed before the call, and no
  remaining log entry refers to it, so the state is well-formed again; the model with
  values is what the model with objects stands for.
\<close>

theorem undo_action_restores:
  assumes wf: "heap_wf s"
  shows "(game_history g = [] \<longrightarrow> undo_action g = (False, g))
    \<and> (\<forall>h b c ph pos. game_history g = h @ [(b, c, ph, pos)] \<longrightarrow>
          undo_action g = (True, g\<lparr>game_history := h, board := b, current_player := c,
                                    current_phase := ph\<rparr>))
    \<and> undo_action (game_of s) = (fst (undo_action_heap s), game_of (snd (undo_action_heap s)))
    \<and> (h_game_history s = [] \<longrightarrow> undo_action_heap s = (False, s))
    \<and> (\<forall>h a c ph pos. h_game_history s = h @ [(a, c, ph, pos)] \<longrightarrow>
          (\<exists>s'. undo_action_heap s = (True, s')
             \<and> h_game_history s' = h
             \<and> h_heap s' ! h_board s' = h_heap s ! a
             \<and> h_board s' \<noteq> a \<and> h_board s' = length (h_heap s)
             \<and> take (length (h_heap s)) (h_heap s') = h_heap s
             \<and> h_current_player s' = c \<and> h_current_phase s' = ph
             \<and> h_player1 s' = h_player1 s \<and> h_player2 s' = h_player2 s
             \<and> h_selected_piece s' = h_selected_piece s
             \<and> h_legal_moves s' = h_legal_moves s
             \<and> heap_wf s'))"
proof (intro conjI allI impI)
  assume "game_history g = []"
  then show "undo_action g = (False, g)" by (rule undo_action_empty)
next
  fix h b c ph pos
  assume "game_history g = h @ [(b, c, ph, pos)]"
  then show "undo_action g = (True, g\<lparr>game_history := h, board := b, current_player := c,
                                    current_phase := ph\<rparr>)"
    by (rule undo_action_snoc)
next
  show "undo_action (game_of s) = (fst (undo_action_heap s), game_of (snd (undo_action_heap s)))"
    using wf by (rule undo_action_heap_refines)
next
  assume "h_game_history s = []"
  then show "undo_action_heap s = (False, s)" by (simp add: undo_action_heap_def)
next
  fix h a c ph pos
  assume snoc: "h_game_history s = h @ [(a, c, ph, pos)]"
  have old: "\<forall>x\<in>set h. fst x < length (h_heap s)" and a: "a < length (h_heap s)"
    using wf snoc by (auto simp: heap_wf_def list_all_iff)
  let ?s' = "s\<lparr>h_game_history := h, h_heap := h_heap s @ [h_heap s ! a],
                 h_board := length (h_heap s), h_current_player := c,
                 h_current_phase := ph\<rparr>"
  have "heap_wf ?s'"
    using old by (auto simp: heap_wf_def list_all_iff)
  then show "\<exists>s'. undo_action_heap s = (True, s')
             \<and> h_game_history s' = h
             \<and> h_heap s' ! h_board s' = h_heap s ! a
             \<and> h_board s' \<noteq> a \<and> h_board s' = length (h_heap s)
             \<and> take (length (h_heap s)) (h_heap s') = h_heap s
             \<and> h_current_player s' = c \<and> h_current_phase s' = ph
             \<and> h_player1 s' = h_player1 s \<and> h_player2 s' = h_player2 s
             \<and> h_selected_piece s' = h_selected_piece s
             \<and> h_legal_moves s' = h_legal_moves s
             \<and> heap_wf s'"
    using a unfolding undo_action_heap_snoc [OF snoc]
    by (intro exI [of _ ?s']) simp
qed

lemma game_of_first_placement_heap: "game_of first_placement_heap = first_placement"
  by (simp add: game_of_def first_placement_heap_def first_placement_def)

theorem undo_action_restores_witness:
  "heap_wf first_placement_heap
   \<and> game_history (new_game player_X player_O) = []
   \<and> undo_action (new_game player_X player_O) = (False, new_game player_X player_O)
   \<and> game_history first_placement = [] @ [(make_new_board, P1, PLACING, 0)]
   \<and> undo_action first_placement
       = (True, first_placement\<lparr>game_history := [], board := make_new_board,
                                current_player := P1, current_phase := PLACING\<rparr>)
   \<and> h_game_history first_placement_heap = [] @ [(1, P1, PLACING, 0)]
   \<and> fst (undo_action_heap first_placement_heap) = True
   \<and> h_board (snd (undo_action_heap first_placement_heap)) = 2
   \<and> h_heap (snd (undo_action_heap first_placement_heap))
       = [make_new_board[0 := ''X''], make_new_board, make_new_board]
   \<and> h_game_history (snd (undo_action_heap first_placement_heap)) = []
   \<and> undo_action (game_of first_placement_heap)
       = (fst (undo_action_heap first_placement_heap),
          game_of (snd (undo_action_heap first_placement_heap)))"
proof -
  have wf: "heap_wf first_placement_heap"
    by (simp add: heap_wf_def first_placement_heap_def)
  have e: "game_history (new_game player_X player_O) = []"
    by (simp add: new_game_def)
  have n: "game_history first_placement = [] @ [(make_new_board, P1, PLACING, 0)]"
    by (simp add: first_placement_def)
  have hn: "h_game_history first_placement_heap = [] @ [(1, P1, PLACING, 0)]"
    by (simp add: first_placement_heap_def)
  note t0 = undo_action_restores [OF wf, of "new_game player_X player_O"]
  note t1 = undo_action_restores [OF wf, of first_placement]
  have a: "undo_action (new_game player_X player_O) = (False, new_game player_X player_O)"
    using t0 e by blast
  have b: "undo_action first_placement
       = (True, first_placement\<lparr>game_history := [], board := make_new_board,
                                current_player := P1, current_phase := PLACING\<rparr>)"
    using t1 n by blast
  have c: "undo_action (game_of first_placement_heap)
       = (fst (undo_action_heap first_placement_heap),
          game_of (snd (undo_action_heap first_placement_heap)))"
    using t1 by blast
  have v: "fst (undo_action_heap first_placement_heap) = True"
    "h_board (snd (undo_action_heap first_placement_heap)) = 2"
    "h_heap (snd (undo_action_heap first_placement_heap))
       = [make_new_board[0 := ''X''], make_new_board, make_new_board]"
    "h_game_history (snd (undo_action_heap first_placement_heap)) = []"
    by (simp_all add: undo_action_heap_def first_placement_heap_def list_copy_def Let_def)
  show ?thesis
    using wf e a n b hn v c by (intro conjI)
qed

end
